theory Spec2Isabelle
  imports Complex_Main "HOL-Library.Word" "HOL-Library.Log_Nat"
begin

section \<open>JavaScript strings\<close>

text \<open>
  A JavaScript string is a sequence of 16-bit UTF-16 code units; \<open>length\<close>,
  \<open>substring\<close> and the regular expressions of the services (none carries the \<open>u\<close>
  flag) all count and match code units. ASCII literals are written \<open>js ''...''\<close>,
  other characters by their code unit.
\<close>

type_synonym jschar = "16 word"
type_synonym jsstring = "jschar list"

definition js :: "string \<Rightarrow> jsstring" where
  "js s = map (\<lambda>c. of_char c) s"

definition SP :: jschar where
  "SP = 0x20"

definition LF :: jschar where
  "LF = 0x0A"

text \<open>
  The class \<open>\s\<close> of a regular expression and the characters removed by
  \<open>String.prototype.trim\<close> are the same set: WhiteSpace and LineTerminator of
  ECMAScript (TAB, LF, VT, FF, CR, SP, NBSP, U+1680, U+2000..U+200A, U+2028, U+2029,
  U+202F, U+205F, U+3000, U+FEFF).
\<close>

definition isWhiteSpace :: "jschar \<Rightarrow> bool" where
  "isWhiteSpace c \<longleftrightarrow>
     c = 0x09 \<or> c = 0x0A \<or> c = 0x0B \<or> c = 0x0C \<or> c = 0x0D \<or> c = 0x20 \<or> c = 0xA0
     \<or> c = 0x1680 \<or> (0x2000 \<le> c \<and> c \<le> 0x200A) \<or> c = 0x2028 \<or> c = 0x2029
     \<or> c = 0x202F \<or> c = 0x205F \<or> c = 0x3000 \<or> c = 0xFEFF"

text \<open>The class \<open>\w\<close>: \<open>[A-Za-z0-9_]\<close>.\<close>

definition isWordChar :: "jschar \<Rightarrow> bool" where
  "isWordChar c \<longleftrightarrow>
     (0x41 \<le> c \<and> c \<le> 0x5A) \<or> (0x61 \<le> c \<and> c \<le> 0x7A) \<or> (0x30 \<le> c \<and> c \<le> 0x39)
     \<or> c = 0x5F"

text \<open>The class \<open>["']\<close>.\<close>

definition isQuote :: "jschar \<Rightarrow> bool" where
  "isQuote c \<longleftrightarrow> c = 0x22 \<or> c = 0x27"

text \<open>
  \<open>s.replace(/X+/g, ' ')\<close> for a character class \<open>X\<close>: every maximal run of
  characters of the class is replaced by one space.
\<close>

function replaceRuns :: "(jschar \<Rightarrow> bool) \<Rightarrow> jsstring \<Rightarrow> jsstring" where
  "replaceRuns p [] = []"
| "replaceRuns p (c # cs) =
     (if p c then SP # replaceRuns p (dropWhile p cs) else c # replaceRuns p cs)"
  by pat_completeness auto
termination
  by (relation "measure (\<lambda>(p, s). length s)") (auto simp: le_imp_less_Suc length_dropWhile_le)

text \<open>\<open>s.trim()\<close>: white space is removed from both ends.\<close>

definition trim :: "jsstring \<Rightarrow> jsstring" where
  "trim s = rev (dropWhile isWhiteSpace (rev (dropWhile isWhiteSpace s)))"

text \<open>\<open>s.substring(0, n)\<close>.\<close>

definition substring0 :: "nat \<Rightarrow> jsstring \<Rightarrow> jsstring" where
  "substring0 n s = take n s"

text \<open>
  Case folding of the ASCII letters. A regular expression with the \<open>i\<close> flag and
  without the \<open>u\<close> flag compares characters after \<open>toUpperCase\<close>, and never lets a
  character outside ASCII match an ASCII one, so an ASCII pattern letter matches exactly
  its two ASCII cases.
\<close>

definition toUpperAscii :: "jschar \<Rightarrow> jschar" where
  "toUpperAscii c = (if 0x61 \<le> c \<and> c \<le> 0x7A then c - 0x20 else c)"

definition toLowerAscii :: "jschar \<Rightarrow> jschar" where
  "toLowerAscii c = (if 0x41 \<le> c \<and> c \<le> 0x5A then c + 0x20 else c)"

text \<open>\<open>/^pat/i.test(s)\<close> for a literal ASCII pattern.\<close>

definition testPrefixCI :: "jsstring \<Rightarrow> jsstring \<Rightarrow> bool" where
  "testPrefixCI pat s \<longleftrightarrow>
     length pat \<le> length s \<and>
     map toUpperAscii (take (length pat) s) = map toUpperAscii pat"

text \<open>Decimal rendering of a number inside a string concatenation.\<close>

function showNat :: "nat \<Rightarrow> jsstring" where
  "showNat n = (if n < 10 then [0x30 + of_nat n] else showNat (n div 10) @ [0x30 + of_nat (n mod 10)])"
  by pat_completeness auto
termination
  by (relation "measure id") auto

section \<open>Object literals as tables\<close>

text \<open>
  The services keep their tables (greetings, voices, speaking rates) in object literals
  and read them with \<open>table[key] || fallback\<close>, where the key is the \<open>language\<close>
  field of the request body, a string that the route does not validate. An object
  literal answers such a read with its own entry for the key, or else with the member of
  that name that it inherits from \<open>Object.prototype\<close>, or else with \<open>undefined\<close>.
  The inherited members are functions, and for \<open>__proto__\<close> the prototype object:
  all are truthy, as is every own entry of the three tables, so the fallback is taken
  only for a key that is neither an own nor an inherited name.
\<close>

definition objectPrototypeNames :: "jsstring list" where
  "objectPrototypeNames =
     [js ''constructor'', js ''__defineGetter__'', js ''__defineSetter__'',
      js ''hasOwnProperty'', js ''__lookupGetter__'', js ''__lookupSetter__'',
      js ''isPrototypeOf'', js ''propertyIsEnumerable'', js ''toString'', js ''valueOf'',
      js ''__proto__'', js ''toLocaleString'']"

datatype 'a member = Own 'a | Inherited jsstring

definition lookupOr :: "(jsstring \<times> 'a) list \<Rightarrow> jsstring \<Rightarrow> 'a \<Rightarrow> 'a member" where
  "lookupOr table key fallback =
     (case map_of table key of
        Some v \<Rightarrow> Own v
      | None \<Rightarrow> if key \<in> set objectPrototypeNames then Inherited key else Own fallback)"

text \<open>
  The text of an inherited member inside a template literal: the prototype object reads
  \<open>[object Object]\<close>, a built-in function reads as its native source text, with the
  name \<open>Object\<close> for the constructor.
\<close>

definition memberText :: "jsstring \<Rightarrow> jsstring" where
  "memberText name =
     (if name = js ''__proto__'' then js ''[object Object]''
      else js ''function ''
           @ (if name = js ''constructor'' then js ''Object'' else name)
           @ js ''() { [native code] }'')"

section \<open>Script generator (services/aiService.js)\<close>

text \<open>
  \<open>cleanGeneratedContent\<close>:
  \<^verbatim>\<open>content.replace(/^["']|["']$/g, '').replace(/\n+/g, ' ').replace(/\s+/g, ' ').trim()\<close>.
  The first replacement removes one quotation mark at the start of the string and one at
  its end (the second alternative is tried from the character after a removed leading
  mark on).
\<close>

definition stripQuotes :: "jsstring \<Rightarrow> jsstring" where
  "stripQuotes s =
     (let s1 = (case s of [] \<Rightarrow> [] | c # cs \<Rightarrow> if isQuote c then cs else s)
      in if s1 \<noteq> [] \<and> isQuote (last s1) then butlast s1 else s1)"

definition cleanGeneratedContent :: "jsstring \<Rightarrow> jsstring" where
  "cleanGeneratedContent content =
     trim (replaceRuns isWhiteSpace (replaceRuns (\<lambda>c. c = LF) (stripQuotes content)))"

text \<open>A string that begins or ends with a quotation mark.\<close>

definition hasOuterQuote :: "jsstring \<Rightarrow> bool" where
  "hasOuterQuote s \<longleftrightarrow> s \<noteq> [] \<and> (isQuote (hd s) \<or> isQuote (last s))"

text \<open>
  The text the three later steps of \<open>cleanGeneratedContent\<close> produce from a string,
  and the shape of a string in which white space occurs only as single spaces.
\<close>

definition normalise :: "jsstring \<Rightarrow> jsstring" where
  "normalise s = trim (replaceRuns isWhiteSpace (replaceRuns (\<lambda>c. c = LF) s))"

fun collapsed :: "jsstring \<Rightarrow> bool" where
  "collapsed [] = True"
| "collapsed [c] = (isWhiteSpace c \<longrightarrow> c = SP)"
| "collapsed (c # d # cs) =
     ((isWhiteSpace c \<longrightarrow> c = SP \<and> \<not> isWhiteSpace d) \<and> collapsed (d # cs))"

text \<open>
  \<open>generateFallbackContent\<close>: \<open>languageGreetings[language] ||
  languageGreetings.english\<close> is the greeting, and the template literal turns it into
  text.
\<close>

definition languageGreetings :: "(jsstring \<times> jsstring) list" where
  "languageGreetings =
     [(js ''english'', js ''Hello everyone,''),
      (js ''russian'',
         [0x417, 0x434, 0x440, 0x430, 0x432, 0x441, 0x442, 0x432, 0x443, 0x439, 0x442, 0x435,
          0x2C]),
      (js ''spanish'', js ''Hola a todos,''),
      (js ''french'', js ''Bonjour '' @ [0xE0] @ js '' tous,''),
      (js ''german'', js ''Hallo zusammen,'')]"

definition greetingFor :: "jsstring \<Rightarrow> jsstring" where
  "greetingFor language =
     (case lookupOr languageGreetings language (js ''Hello everyone,'') of
        Own greeting \<Rightarrow> greeting
      | Inherited name \<Rightarrow> memberText name)"

definition generateFallbackContent :: "jsstring \<Rightarrow> jsstring \<Rightarrow> jsstring" where
  "generateFallbackContent slideContent language =
     greetingFor language
     @ js '' today we will be discussing the following topic: ''
     @ substring0 200 slideContent
     @ js ''. This is an important subject that we need to understand thoroughly. Let me explain the key points and provide some examples to help clarify the concepts.''"

text \<open>
  \<open>validateGeneratedContent\<close>: a non-empty string of 50 to 2000 code units that does
  not begin with one of four refusal phrases, compared without regard to case.
\<close>

definition problematicPatterns :: "jsstring list" where
  "problematicPatterns =
     [js ''I'' @ [0x27] @ js ''m sorry'',
      js ''I cannot'',
      js ''I don'' @ [0x27] @ js ''t have access'',
      js ''As an AI'']"

definition validateGeneratedContent :: "jsstring \<Rightarrow> bool" where
  "validateGeneratedContent content =
     (if content = [] then False
      else if length content < 50 then False
      else if length content > 2000 then False
      else \<not> list_ex (\<lambda>pat. testPrefixCI pat content) problematicPatterns)"

text \<open>
  The outcome of one call of the language model provider, as \<open>generateLectureContent\<close>
  sees it: the call throws, or the first choice of the completion carries a text, or it
  carries none (\<open>content\<close> is \<open>null\<close>, or there is no choice), in which case the
  clean-up throws inside the \<open>try\<close> block.
\<close>

datatype completion = ProviderError jsstring | Content jsstring | NoContent

definition systemPrompt :: "jsstring \<Rightarrow> jsstring \<Rightarrow> jsstring \<Rightarrow> jsstring" where
  "systemPrompt slideContent basePrompt language =
     js ''You are an expert lecturer. Your task is to create an engaging and informative lecture script based on the provided slide content.''
     @ [LF, LF] @ basePrompt @ [LF, LF]
     @ js ''Requirements:'' @ [LF]
     @ js ''- Make it conversational and engaging'' @ [LF]
     @ js ''- Include relevant examples and explanations'' @ [LF]
     @ js ''- Ensure it flows naturally and is suitable for text-to-speech'' @ [LF]
     @ js ''- Target language: '' @ language @ [LF]
     @ js ''- Keep it concise but comprehensive'' @ [LF]
     @ js ''- Make it sound like a natural lecture delivery'' @ [LF, LF]
     @ js ''Slide Content:'' @ [LF]
     @ slideContent"

text \<open>
  \<open>generateLectureContent\<close>: the provider is called once with the system prompt; its
  text is cleaned and returned as it is. Every exception of the \<open>try\<close> block leads to
  the fallback script. \<open>validateGeneratedContent\<close> is not called.
\<close>

definition generateLectureContent ::
  "(jsstring \<Rightarrow> completion) \<Rightarrow> jsstring \<Rightarrow> jsstring \<Rightarrow> jsstring \<Rightarrow> jsstring" where
  "generateLectureContent provider slideContent basePrompt language =
     (case provider (systemPrompt slideContent basePrompt language) of
        Content generatedContent \<Rightarrow> cleanGeneratedContent generatedContent
      | NoContent \<Rightarrow> generateFallbackContent slideContent language
      | ProviderError e \<Rightarrow> generateFallbackContent slideContent language)"

section \<open>Content extractor (services/fileProcessor.js)\<close>

type_synonym buffer = "8 word list"

text \<open>A slide as the extractor returns it, and as the lecture document stores it.\<close>

record extracted =
  content :: jsstring
  imageUrl :: jsstring

record slide = extracted +
  slideNumber :: nat
  aiScript :: jsstring
  audioUrl :: jsstring
  duration :: nat

text \<open>
  \<open>generateSlideImage\<close> renders a picture and uploads it; when either step throws, the
  \<open>catch\<close> block returns a placeholder address. The rendering and the upload are the
  parameter \<open>renderUpload\<close> (\<open>None\<close> when they throw).
\<close>

definition generateSlideImage ::
  "(jsstring \<Rightarrow> nat \<Rightarrow> jsstring option) \<Rightarrow> jsstring \<Rightarrow> nat \<Rightarrow> jsstring" where
  "generateSlideImage renderUpload text n =
     (case renderUpload text n of
        Some location \<Rightarrow> location
      | None \<Rightarrow> js ''https://via.placeholder.com/800x600/f8f9fa/333?text=Slide+'' @ showNat n)"

definition processPPTX ::
  "(jsstring \<Rightarrow> nat \<Rightarrow> jsstring option) \<Rightarrow> buffer \<Rightarrow> jsstring + extracted list" where
  "processPPTX renderUpload buf =
     Inr [\<lparr>content = js ''Slide content extracted from PPTX'',
           imageUrl = generateSlideImage renderUpload (js ''Slide 1'') 1\<rparr>]"

text \<open>\<open>text.split('\n\n')\<close>: the pieces between successive occurrences of two line feeds.\<close>

fun splitParagraphs :: "jsstring \<Rightarrow> jsstring list" where
  "splitParagraphs [] = [[]]"
| "splitParagraphs [c] = [[c]]"
| "splitParagraphs (c # d # cs) =
     (if c = LF \<and> d = LF then [] # splitParagraphs cs
      else (case splitParagraphs (d # cs) of
              p # ps \<Rightarrow> (c # p) # ps
            | [] \<Rightarrow> [[c]]))"

text \<open>
  The loop of \<open>processPDF\<close> over the non-blank pieces: \<open>i\<close> is the index of the piece,
  and a piece becomes a slide when its trimmed text has more than 10 code units.
\<close>

fun pdfSlides :: "(jsstring \<Rightarrow> nat \<Rightarrow> jsstring option) \<Rightarrow> nat \<Rightarrow> jsstring list \<Rightarrow> extracted list" where
  "pdfSlides renderUpload i [] = []"
| "pdfSlides renderUpload i (page # pages) =
     (let pageContent = trim page in
      if length pageContent > 10
      then \<lparr>content = pageContent,
            imageUrl = generateSlideImage renderUpload (substring0 100 pageContent) (i + 1)\<rparr>
           # pdfSlides renderUpload (i + 1) pages
      else pdfSlides renderUpload (i + 1) pages)"

text \<open>
  \<open>processPDF\<close>: the parser of the PDF library is the parameter \<open>pdfParse\<close> (\<open>None\<close>
  when it throws); every exception becomes the error "Failed to process PDF file".
\<close>

definition processPDF ::
  "(buffer \<Rightarrow> jsstring option) \<Rightarrow> (jsstring \<Rightarrow> nat \<Rightarrow> jsstring option) \<Rightarrow> buffer
     \<Rightarrow> jsstring + extracted list" where
  "processPDF pdfParse renderUpload buf =
     (case pdfParse buf of
        None \<Rightarrow> Inl (js ''Failed to process PDF file'')
      | Some text \<Rightarrow>
          Inr (pdfSlides renderUpload 0
                 (filter (\<lambda>page. length (trim page) > 0) (splitParagraphs text))))"

section \<open>Speech synthesizer (services/ttsService.js)\<close>

definition LANGUAGE_VOICES :: "(jsstring \<times> jsstring) list" where
  "LANGUAGE_VOICES =
     [(js ''english'', js ''alloy''),
      (js ''russian'', js ''echo''),
      (js ''spanish'', js ''onyx''),
      (js ''french'', js ''nova''),
      (js ''german'', js ''shimmer'')]"

text \<open>\<open>LANGUAGE_VOICES[language] || 'alloy'\<close>: a voice name, or an inherited member.\<close>

definition voiceFor :: "jsstring \<Rightarrow> jsstring member" where
  "voiceFor language = lookupOr LANGUAGE_VOICES language (js ''alloy'')"

text \<open>The characters that \<open>/[^\w\s.,!?-]/g\<close> leaves in place.\<close>

definition isTTSPunctuation :: "jschar \<Rightarrow> bool" where
  "isTTSPunctuation c \<longleftrightarrow> c = 0x2E \<or> c = 0x2C \<or> c = 0x21 \<or> c = 0x3F \<or> c = 0x2D"

definition keptForTTS :: "jschar \<Rightarrow> bool" where
  "keptForTTS c \<longleftrightarrow> isWordChar c \<or> isWhiteSpace c \<or> isTTSPunctuation c"

text \<open>The characters of a prepared text: word characters, the space and the five marks.\<close>

definition isTTSOutputChar :: "jschar \<Rightarrow> bool" where
  "isTTSOutputChar c \<longleftrightarrow> isWordChar c \<or> c = SP \<or> isTTSPunctuation c"

text \<open>
  The Russian step, \<open>replace(/[a-ya, yo]/gi, char => char.toLowerCase())\<close> over the
  Cyrillic range U+0430..U+044F and U+0451: the capital letters U+0410..U+042F and
  U+0401 are replaced by their small letters; every other character the pattern matches
  is a small letter already and is replaced by itself.
\<close>

definition russianLower :: "jschar \<Rightarrow> jschar" where
  "russianLower c =
     (if 0x410 \<le> c \<and> c \<le> 0x42F then c + 0x20 else if c = 0x401 then 0x451 else c)"

text \<open>The German step, \<open>replace(/sharp s/g, 'ss')\<close> for the letter U+00DF.\<close>

definition germanSharpS :: "jsstring \<Rightarrow> jsstring" where
  "germanSharpS s = concat (map (\<lambda>c. if c = 0xDF then js ''ss'' else [c]) s)"

definition languageSpecific :: "jsstring \<Rightarrow> jsstring \<Rightarrow> jsstring" where
  "languageSpecific language cleanedText =
     (if language = js ''russian'' then map russianLower cleanedText
      else if language = js ''german'' then germanSharpS cleanedText
      else cleanedText)"

text \<open>The text before the language-specific step of \<open>prepareTextForTTS\<close>.\<close>

definition ttsBase :: "jsstring \<Rightarrow> jsstring" where
  "ttsBase text = trim (filter keptForTTS (replaceRuns isWhiteSpace text))"

definition prepareTextForTTS :: "jsstring \<Rightarrow> jsstring \<Rightarrow> jsstring" where
  "prepareTextForTTS text language =
     (let cleanedText = languageSpecific language (ttsBase text)
      in if length cleanedText > 4000 then substring0 4000 cleanedText @ js ''...''
         else cleanedText)"

text \<open>
  \<open>generateSpeech\<close>: the call of the speech provider and the upload of its audio are
  the parameter \<open>synthesize\<close>, from the prepared text and the voice to the address of
  the stored audio (\<open>None\<close> when either throws). Every exception becomes the error
  "Failed to generate speech".
\<close>

definition generateSpeech ::
  "(jsstring \<Rightarrow> jsstring member \<Rightarrow> jsstring option) \<Rightarrow> jsstring \<Rightarrow> jsstring
     \<Rightarrow> jsstring + jsstring" where
  "generateSpeech synthesize text language =
     (case synthesize (prepareTextForTTS text language) (voiceFor language) of
        Some location \<Rightarrow> Inr location
      | None \<Rightarrow> Inl (js ''Failed to generate speech''))"

text \<open>
  \<open>generateSpeechBatch\<close>: one result per text, in order; a failed item keeps its slide
  number and carries a null audio address and the error message. The \<open>i\<close>-th call of
  the provider is \<open>synthesize i\<close>.
\<close>

record tts_text =
  textSlideNumber :: nat
  textContent :: jsstring

record tts_result =
  resultSlideNumber :: nat
  resultAudioUrl :: "jsstring option"
  resultContent :: jsstring
  resultError :: "jsstring option"

fun generateSpeechBatch ::
  "(nat \<Rightarrow> jsstring \<Rightarrow> jsstring member \<Rightarrow> jsstring option) \<Rightarrow> nat \<Rightarrow> tts_text list \<Rightarrow> jsstring
     \<Rightarrow> tts_result list" where
  "generateSpeechBatch synthesize i [] language = []"
| "generateSpeechBatch synthesize i (t # texts) language =
     (case generateSpeech (synthesize i) (textContent t) language of
        Inr url \<Rightarrow>
          \<lparr>resultSlideNumber = textSlideNumber t, resultAudioUrl = Some url,
           resultContent = textContent t, resultError = None\<rparr>
      | Inl message \<Rightarrow>
          \<lparr>resultSlideNumber = textSlideNumber t, resultAudioUrl = None,
           resultContent = textContent t, resultError = Some message\<rparr>)
     # generateSpeechBatch synthesize (i + 1) texts language"

text \<open>
  \<open>estimateAudioDuration\<close>: \<open>text.split(/\s+/).length\<close> is one more than the number of
  runs of white space.
\<close>

function splitWhiteSpace :: "jsstring \<Rightarrow> jsstring list" where
  "splitWhiteSpace s =
     (case dropWhile (\<lambda>c. \<not> isWhiteSpace c) s of
        [] \<Rightarrow> [s]
      | c # cs \<Rightarrow> takeWhile (\<lambda>c. \<not> isWhiteSpace c) s # splitWhiteSpace (dropWhile isWhiteSpace cs))"
  by pat_completeness auto
termination
proof (relation "measure length")
  show "wf (measure length)" by simp
next
  fix s :: jsstring and c cs
  assume "dropWhile (\<lambda>c. \<not> isWhiteSpace c) s = c # cs"
  then have "length (c # cs) \<le> length s"
    using length_dropWhile_le[of "\<lambda>c. \<not> isWhiteSpace c" s] by simp
  moreover have "length (dropWhile isWhiteSpace cs) \<le> length cs"
    by (rule length_dropWhile_le)
  ultimately show "(dropWhile isWhiteSpace cs, s) \<in> measure length" by simp
qed

definition speakingRates :: "(jsstring \<times> nat) list" where
  "speakingRates =
     [(js ''english'', 150), (js ''russian'', 120), (js ''spanish'', 140),
      (js ''french'', 130), (js ''german'', 125)]"

text \<open>
  The numbers of \<open>Math.ceil((wordCount / rate) * 60)\<close> are IEEE 754 doubles. A positive
  double is \<open>m * 2 ^ e\<close> with \<open>2 ^ 52 \<le> m < 2 ^ 53\<close>; the result of a division or
  a multiplication is the double nearest to the exact result, the one with the even
  \<open>m\<close> when two are equally near. \<open>ilog2 x\<close> is the \<open>e\<close> with
  \<open>2 ^ e \<le> x < 2 ^ (e + 1)\<close>, and \<open>toDouble x\<close> the double nearest to a positive
  \<open>x\<close> (far from overflow and underflow, as every quotient of a word count by a rate
  and its product by 60 are). A word count is an integer below \<open>2 ^ 53\<close> and a double
  as it is; \<open>Math.ceil\<close> is exact.
\<close>

definition pow2 :: "int \<Rightarrow> rat" where
  "pow2 e = (if 0 \<le> e then 2 ^ nat e else 1 / 2 ^ nat (- e))"

definition ilog2 :: "rat \<Rightarrow> int" where
  "ilog2 x =
     (if 1 \<le> x then int (floorlog 2 (nat \<lfloor>x\<rfloor>)) - 1
      else - int (floorlog 2 (nat (\<lceil>1 / x\<rceil> - 1))))"

definition roundHalfEven :: "rat \<Rightarrow> int" where
  "roundHalfEven y =
     (let f = \<lfloor>y\<rfloor>
      in if y - of_int f < 1 / 2 then f
         else if 1 / 2 < y - of_int f then f + 1
         else if even f then f else f + 1)"

definition toDouble :: "rat \<Rightarrow> rat" where
  "toDouble x =
     (let ulp = pow2 (ilog2 x - 52)
      in of_int (roundHalfEven (x / ulp)) * ulp)"

text \<open>\<open>Math.ceil((wordCount / rate) * 60)\<close> for a rate that is a number.\<close>

definition ceilSeconds :: "nat \<Rightarrow> nat \<Rightarrow> nat" where
  "ceilSeconds wordCount rate =
     nat \<lceil>toDouble (toDouble (of_nat wordCount / of_nat rate) * 60)\<rceil>"

text \<open>
  \<open>speakingRates[language] || 150\<close> is a rate or an inherited member; the quotient of
  the word count by a member that is not a number is \<open>NaN\<close>, and so is the result
  (\<open>None\<close>).
\<close>

definition estimateAudioDuration :: "jsstring \<Rightarrow> jsstring \<Rightarrow> nat option" where
  "estimateAudioDuration text language =
     (let rate = lookupOr speakingRates language 150;
          wordCount = length (splitWhiteSpace text)
      in case rate of
           Own r \<Rightarrow> Some (ceilSeconds wordCount r)
         | Inherited name \<Rightarrow> None)"

section \<open>Lecture document (models/Lecture.js)\<close>

datatype status = Uploading | Processing | Generating | Ready | Error

text \<open>
  The fields of the lecture document that the upload route reads or writes; the other
  fields of the schema (name, language, prompt, tags, visibility) are the extension of
  the record. The time stamps the store maintains by itself are not part of the model.
\<close>

record lecture =
  owner :: nat
  fileName :: jsstring
  fileType :: jsstring
  fileSize :: nat
  fileUrl :: jsstring
  slides :: "slide list"
  status :: status
  processingProgress :: nat
  totalDuration :: nat
  slideCount :: nat
  processingTime :: "int option"
  errorMessage :: jsstring
  createdAt :: int

section \<open>Pipeline (routes/upload.js)\<close>

record uploaded_file =
  originalname :: jsstring
  size' :: nat
  buffer :: buffer

text \<open>
  The request: the uploaded file if there is one, the authenticated user, and the
  \<open>language\<close> and \<open>aiPrompt\<close> fields of the body (an absent prompt is the empty
  string, as \<open>aiPrompt || ''\<close> makes it; an absent language acts as the string
  \<open>undefined\<close> in the prompt, in the tables and in the \<open>switch\<close>).
\<close>

record request =
  file' :: "uploaded_file option"
  user :: nat
  language :: jsstring
  aiPrompt :: jsstring

text \<open>
  The collaborators of one run: the upload of the original file (its address, or the
  message of the exception), the PDF parser, the rendering and upload of a slide image,
  the \<open>i\<close>-th call of the language model and of the speech provider, the configured
  base prompt and file types, and the clock at the end of the run. The lecture store
  itself does not fail in this model.
\<close>

record services =
  s3Upload :: "jsstring + jsstring"
  pdfParse :: "buffer \<Rightarrow> jsstring option"
  renderUpload :: "jsstring \<Rightarrow> nat \<Rightarrow> jsstring option"
  chatCompletion :: "nat \<Rightarrow> jsstring \<Rightarrow> completion"
  synthesize :: "nat \<Rightarrow> jsstring \<Rightarrow> jsstring member \<Rightarrow> jsstring option"
  basePrompt :: jsstring
  allowedTypes :: "jsstring list"
  now :: int

datatype response =
    Processed "slide list"
  | NoFileUploaded
  | LectureNotFound
  | AccessDenied
  | UploadFailed jsstring
  | FileRejected

text \<open>
  \<open>originalname.split('.').pop().toLowerCase()\<close>: the text after the last dot, or the
  whole name when it has no dot, with its ASCII letters in lower case (no letter outside
  ASCII has a lower case among the letters of \<open>pptx\<close> and \<open>pdf\<close>).
\<close>

definition fileExtension :: "jsstring \<Rightarrow> jsstring" where
  "fileExtension name = map toLowerAscii (rev (takeWhile (\<lambda>c. c \<noteq> 0x2E) (rev name)))"

text \<open>
  \<open>Lecture.findByIdAndUpdate(lectureId, update)\<close> on the document of the run: the new
  state of the document is appended to the history of its states.
\<close>

definition findByIdAndUpdate :: "(lecture \<Rightarrow> lecture) \<Rightarrow> lecture list \<Rightarrow> lecture list" where
  "findByIdAndUpdate upd history = history @ [upd (last history)]"

text \<open>The status and the progress of a state of the document.\<close>

definition track :: "lecture \<Rightarrow> status \<times> nat" where
  "track l = (status l, processingProgress l)"

text \<open>\<open>Math.round(40 + ((i + 1) / slides.length) * 40)\<close>, in exact arithmetic.\<close>

definition progressAfter :: "nat \<Rightarrow> nat \<Rightarrow> nat" where
  "progressAfter i n = nat \<lfloor>40 + (of_nat (i + 1) / of_nat n :: rat) * 40 + 1 / 2\<rfloor>"

text \<open>The slide skeletons persisted after extraction; the schema supplies the defaults.\<close>

fun skeletons :: "nat \<Rightarrow> extracted list \<Rightarrow> slide list" where
  "skeletons index [] = []"
| "skeletons index (s # rest) =
     \<lparr>content = content s, imageUrl = imageUrl s, slideNumber = index + 1,
      aiScript = [], audioUrl = [], duration = 0\<rparr>
     # skeletons (index + 1) rest"

text \<open>
  The loop over the slides: \<open>i\<close> is the index of the next slide, \<open>n\<close> the number of
  slides, \<open>processedSlides\<close> the slides finished so far. An exception of
  \<open>generateSpeech\<close> leaves the loop with the message.
\<close>

fun processSlides ::
  "services \<Rightarrow> jsstring \<Rightarrow> jsstring \<Rightarrow> nat \<Rightarrow> nat \<Rightarrow> extracted list \<Rightarrow> slide list \<Rightarrow> lecture list
     \<Rightarrow> lecture list \<times> (jsstring + slide list)" where
  "processSlides sv fullPrompt lang n i [] processedSlides history =
     (history, Inr processedSlides)"
| "processSlides sv fullPrompt lang n i (s # rest) processedSlides history =
     (let script = generateLectureContent (chatCompletion sv i) (content s) fullPrompt lang
      in case generateSpeech (synthesize sv i) script lang of
           Inl message \<Rightarrow> (history, Inl message)
         | Inr url \<Rightarrow>
             processSlides sv fullPrompt lang n (i + 1) rest
               (processedSlides @
                  [\<lparr>content = content s, imageUrl = imageUrl s, slideNumber = i + 1,
                    aiScript = script, audioUrl = url, duration = 0\<rparr>])
               (findByIdAndUpdate (\<lambda>l. l\<lparr>processingProgress := progressAfter i n\<rparr>) history))"

text \<open>The extraction step: by file type, and no slide for any other type.\<close>

definition extractSlides :: "services \<Rightarrow> jsstring \<Rightarrow> buffer \<Rightarrow> jsstring + extracted list" where
  "extractSlides sv ftype buf =
     (if ftype = js ''pptx'' then processPPTX (renderUpload sv) buf
      else if ftype = js ''pdf'' then processPDF (pdfParse sv) (renderUpload sv) buf
      else Inr [])"

text \<open>
  The \<open>try\<close> block from the first update of the document on: the history of the
  document, and the processed slides or the message of the exception that left the block.
\<close>

definition tryBlock ::
  "services \<Rightarrow> request \<Rightarrow> uploaded_file \<Rightarrow> lecture \<Rightarrow> lecture list \<times> (jsstring + slide list)" where
  "tryBlock sv req f lec =
     (let ftype = fileExtension (originalname f);
          h1 = findByIdAndUpdate
                 (\<lambda>l. l\<lparr>fileName := originalname f, fileType := ftype, fileSize := size' f,
                        status := Processing, processingProgress := 10\<rparr>) [lec]
      in case s3Upload sv of
           Inl message \<Rightarrow> (h1, Inl message)
         | Inr location \<Rightarrow>
             (let h2 = findByIdAndUpdate
                         (\<lambda>l. l\<lparr>fileUrl := location, processingProgress := 20\<rparr>) h1
              in case extractSlides sv ftype (buffer f) of
                   Inl message \<Rightarrow> (h2, Inl message)
                 | Inr extractedSlides \<Rightarrow>
                     (let h3 = findByIdAndUpdate
                                 (\<lambda>l. l\<lparr>slides := skeletons 0 extractedSlides,
                                        processingProgress := 40\<rparr>) h2;
                          fullPrompt = basePrompt sv @ [LF, LF] @ aiPrompt req
                      in case processSlides sv fullPrompt (language req)
                                (length extractedSlides) 0 extractedSlides [] h3 of
                           (h4, Inl message) \<Rightarrow> (h4, Inl message)
                         | (h4, Inr processedSlides) \<Rightarrow>
                             (findByIdAndUpdate
                                (\<lambda>l. l\<lparr>slides := processedSlides,
                                       totalDuration :=
                                         foldl (\<lambda>sum s. sum + duration s) 0 processedSlides,
                                       status := Ready,
                                       processingProgress := 100,
                                       slideCount := length processedSlides,
                                       processingTime := Some (now sv - createdAt lec)\<rparr>) h4,
                              Inr processedSlides))))"

text \<open>
  The route \<open>POST /lecture/:lectureId\<close>. The upload middleware rejects a file whose
  extension is not configured before the handler runs; the handler answers without
  touching the document when there is no file, no lecture, or another owner; the
  \<open>catch\<close> block writes the status \<open>error\<close> and the message of the exception.
\<close>

definition uploadLecture ::
  "services \<Rightarrow> request \<Rightarrow> lecture option \<Rightarrow> response \<times> lecture list" where
  "uploadLecture sv req stored =
     (case file' req of
        None \<Rightarrow> (NoFileUploaded, (case stored of None \<Rightarrow> [] | Some lec \<Rightarrow> [lec]))
      | Some f \<Rightarrow>
          if fileExtension (originalname f) \<notin> set (allowedTypes sv)
          then (FileRejected, (case stored of None \<Rightarrow> [] | Some lec \<Rightarrow> [lec]))
          else (case stored of
                  None \<Rightarrow> (LectureNotFound, [])
                | Some lec \<Rightarrow>
                    if owner lec \<noteq> user req then (AccessDenied, [lec])
                    else (case tryBlock sv req f lec of
                            (history, Inr processedSlides) \<Rightarrow> (Processed processedSlides, history)
                          | (history, Inl message) \<Rightarrow>
                              (UploadFailed message,
                               findByIdAndUpdate
                                 (\<lambda>l. l\<lparr>status := Error, errorMessage := message\<rparr>) history))))"

section \<open>Example runs\<close>

text \<open>
  A new lecture of user 7, a request with a presentation and one with a PDF, and the
  collaborators of four runs: a language model that answers with a refusal, one that
  answers with a sentence, a speech provider that fails on the first slide of a PDF of two
  paragraphs, and a PDF whose only text is two letters.
\<close>

definition freshLecture :: lecture where
  "freshLecture =
     \<lparr>owner = 7, fileName = [], fileType = [], fileSize = 0, fileUrl = [], slides = [],
      status = Uploading, processingProgress = 0, totalDuration = 0, slideCount = 0,
      processingTime = None, errorMessage = [], createdAt = 1000\<rparr>"

definition deckRequest :: request where
  "deckRequest =
     \<lparr>file' = Some \<lparr>originalname = js ''deck.pptx'', size' = 3, buffer = [1, 2, 3]\<rparr>,
      user = 7, language = js ''english'', aiPrompt = []\<rparr>"

definition notesRequest :: request where
  "notesRequest =
     \<lparr>file' = Some \<lparr>originalname = js ''notes.pdf'', size' = 3, buffer = [1, 2, 3]\<rparr>,
      user = 7, language = js ''english'', aiPrompt = []\<rparr>"

definition refusingServices :: services where
  "refusingServices =
     \<lparr>s3Upload = Inr (js ''s3/deck''), pdfParse = (\<lambda>b. None), renderUpload = (\<lambda>t n. None),
      chatCompletion = (\<lambda>i p. Content (js ''I cannot help with that.'')),
      synthesize = (\<lambda>i t v. Some (js ''s3/audio'')),
      basePrompt = js ''Teach.'', allowedTypes = [js ''pptx'', js ''pdf''], now = 5000\<rparr>"

definition speechFailingServices :: services where
  "speechFailingServices =
     \<lparr>s3Upload = Inr (js ''s3/notes''),
      pdfParse = (\<lambda>b. Some (js ''First slide text'' @ [LF, LF] @ js ''Second slide text'')),
      renderUpload = (\<lambda>t n. None),
      chatCompletion = (\<lambda>i p. Content (js ''Welcome to this lecture.'')),
      synthesize = (\<lambda>i t v. if i = 0 then None else Some (js ''s3/audio'')),
      basePrompt = js ''Teach.'', allowedTypes = [js ''pptx'', js ''pdf''], now = 5000\<rparr>"

definition shortPdfServices :: services where
  "shortPdfServices =
     \<lparr>s3Upload = Inr (js ''s3/notes''),
      pdfParse = (\<lambda>b. Some (js ''Hi'')),
      renderUpload = (\<lambda>t n. None),
      chatCompletion = (\<lambda>i p. Content (js ''Welcome to this lecture.'')),
      synthesize = (\<lambda>i t v. Some (js ''s3/audio'')),
      basePrompt = js ''Teach.'', allowedTypes = [js ''pptx'', js ''pdf''], now = 5000\<rparr>"

definition plainServices :: services where
  "plainServices =
     \<lparr>s3Upload = Inr (js ''s3/deck''), pdfParse = (\<lambda>b. None), renderUpload = (\<lambda>t n. None),
      chatCompletion = (\<lambda>i p. Content (js ''Welcome to this lecture.'')),
      synthesize = (\<lambda>i t v. Some (js ''s3/audio'')),
      basePrompt = js ''Teach.'', allowedTypes = [js ''pptx'', js ''pdf''], now = 5000\<rparr>"

section \<open>Properties of the string operations\<close>

lemmas string_defs = js_def LF_def SP_def isWhiteSpace_def isQuote_def isWordChar_def trim_def
  substring0_def toLowerAscii_def toUpperAscii_def

lemmas run_defs = uploadLecture_def tryBlock_def extractSlides_def processPPTX_def processPDF_def
  generateSlideImage_def fileExtension_def findByIdAndUpdate_def generateSpeech_def
  generateLectureContent_def cleanGeneratedContent_def stripQuotes_def Let_def

lemma collapsed_Cons_iff:
  "collapsed (c # cs) \<longleftrightarrow>
     (isWhiteSpace c \<longrightarrow> c = SP \<and> (cs \<noteq> [] \<longrightarrow> \<not> isWhiteSpace (hd cs))) \<and> collapsed cs"
  by (cases cs) auto

lemma hd_replaceRuns:
  "(xs \<noteq> [] \<longrightarrow> \<not> p (hd xs)) \<Longrightarrow>
   replaceRuns p xs \<noteq> [] \<longrightarrow> \<not> p (hd (replaceRuns p xs))"
  by (cases xs) auto

lemma hd_replaceRuns_dropWhile:
  "replaceRuns p (dropWhile p cs) \<noteq> [] \<longrightarrow> \<not> p (hd (replaceRuns p (dropWhile p cs)))"
  by (rule hd_replaceRuns) (simp add: hd_dropWhile del: dropWhile_eq_Nil_conv)

lemma collapsed_replaceRuns: "collapsed (replaceRuns isWhiteSpace s)"
proof (induction isWhiteSpace s rule: replaceRuns.induct)
  case 1 show ?case by simp
next
  case (2 c cs)
  show ?case
  proof (cases "isWhiteSpace c")
    case True
    with 2 hd_replaceRuns_dropWhile[of isWhiteSpace cs] show ?thesis
      by (simp add: collapsed_Cons_iff)
  next
    case False
    with 2 show ?thesis by (simp add: collapsed_Cons_iff)
  qed
qed

lemma replaceRuns_collapsed: "collapsed s \<Longrightarrow> replaceRuns isWhiteSpace s = s"
proof (induction s)
  case Nil show ?case by simp
next
  case (Cons c cs)
  then have cs: "replaceRuns isWhiteSpace cs = cs" by (simp add: collapsed_Cons_iff)
  show ?case
  proof (cases "isWhiteSpace c")
    case True
    with Cons.prems have "c = SP" and "cs \<noteq> [] \<longrightarrow> \<not> isWhiteSpace (hd cs)"
      by (simp_all add: collapsed_Cons_iff)
    then have "dropWhile isWhiteSpace cs = cs" by (cases cs) auto
    with True cs \<open>c = SP\<close> show ?thesis by simp
  next
    case False with cs show ?thesis by simp
  qed
qed

lemma replaceRuns_none: "\<forall>c \<in> set s. \<not> p c \<Longrightarrow> replaceRuns p s = s"
  by (induction s) auto

lemma collapsed_no_LF: "collapsed s \<Longrightarrow> c \<in> set s \<Longrightarrow> c \<noteq> LF"
  by (induction s) (auto simp: collapsed_Cons_iff isWhiteSpace_def SP_def LF_def)

lemma collapsed_drop: "collapsed s \<Longrightarrow> collapsed (drop n s)"
proof (induction s arbitrary: n)
  case Nil show ?case by simp
next
  case (Cons c cs)
  then show ?case by (cases n) (auto simp: collapsed_Cons_iff)
qed

lemma collapsed_take: "collapsed s \<Longrightarrow> collapsed (take n s)"
proof (induction s arbitrary: n)
  case Nil show ?case by simp
next
  case (Cons c cs)
  show ?case
  proof (cases n)
    case 0 then show ?thesis by simp
  next
    case (Suc m)
    have "take m cs \<noteq> [] \<Longrightarrow> hd (take m cs) = hd cs"
      by (cases m; cases cs) auto
    moreover have "take m cs \<noteq> [] \<Longrightarrow> cs \<noteq> []" by auto
    ultimately show ?thesis using Cons Suc
      by (auto simp: collapsed_Cons_iff)
  qed
qed

lemma trim_as_take_drop: "\<exists>i j. trim s = take i (drop j s)"
proof -
  let ?t = "dropWhile isWhiteSpace s"
  have "?t = drop (length (takeWhile isWhiteSpace s)) s"
    by (rule dropWhile_eq_drop)
  moreover have "rev (dropWhile isWhiteSpace (rev ?t))
       = take (length ?t - length (takeWhile isWhiteSpace (rev ?t))) ?t"
    by (simp add: dropWhile_eq_drop[of isWhiteSpace "rev ?t"] rev_drop)
  ultimately show ?thesis unfolding trim_def by metis
qed

lemma collapsed_trim: "collapsed s \<Longrightarrow> collapsed (trim s)"
  using trim_as_take_drop[of s] collapsed_take collapsed_drop by metis

lemma trim_idem: "trim (trim s) = trim s"
proof -
  define t where "t = dropWhile isWhiteSpace s"
  define z where "z = rev (dropWhile isWhiteSpace (rev t))"
  obtain k where z_take: "z = take k t"
    using dropWhile_eq_drop[of isWhiteSpace "rev t"] by (simp add: z_def rev_drop)
  have t: "t \<noteq> [] \<Longrightarrow> \<not> isWhiteSpace (hd t)"
    unfolding t_def by (rule hd_dropWhile)
  have "dropWhile isWhiteSpace z = z"
  proof (cases z)
    case Nil then show ?thesis by simp
  next
    case (Cons a as)
    with z_take have ne: "t \<noteq> []" by auto
    have "hd z = hd t" using z_take Cons ne
      by (cases k; cases t) auto
    with t[OF ne] Cons show ?thesis by auto
  qed
  moreover have "dropWhile isWhiteSpace (rev z) = rev z"
    by (simp add: z_def)
  ultimately show ?thesis by (simp add: trim_def t_def[symmetric] z_def[symmetric])
qed

lemma length_replaceRuns: "length (replaceRuns p s) \<le> length s"
proof (induction p s rule: replaceRuns.induct)
  case (1 p) show ?case by simp
next
  case (2 p c cs)
  have "length (dropWhile p cs) \<le> length cs" by (rule length_dropWhile_le)
  with 2 show ?case by (auto intro: le_trans)
qed

lemma length_trim: "length (trim s) \<le> length s"
proof -
  have "length (dropWhile isWhiteSpace (rev (dropWhile isWhiteSpace s)))
          \<le> length (rev (dropWhile isWhiteSpace s))"
    by (rule length_dropWhile_le)
  also have "\<dots> \<le> length s" by (simp add: length_dropWhile_le)
  finally show ?thesis by (simp add: trim_def)
qed

lemma collapsed_normalise: "collapsed (normalise s)"
  unfolding normalise_def by (rule collapsed_trim) (rule collapsed_replaceRuns)

lemma normalise_fixed:
  assumes "collapsed t" and "trim t = t"
  shows "normalise t = t"
proof -
  have "replaceRuns (\<lambda>c. c = LF) t = t"
    using assms(1) by (intro replaceRuns_none) (auto dest: collapsed_no_LF)
  with assms show ?thesis by (simp add: normalise_def replaceRuns_collapsed)
qed

lemma normalise_idem: "normalise (normalise s) = normalise s"
  by (rule normalise_fixed) (simp_all add: collapsed_normalise, simp add: normalise_def trim_idem)

lemma length_normalise: "length (normalise s) \<le> length s"
  unfolding normalise_def
  by (meson length_trim length_replaceRuns le_trans)

lemma stripQuotes_id: "\<not> hasOuterQuote s \<Longrightarrow> stripQuotes s = s"
  by (cases s) (auto simp: stripQuotes_def hasOuterQuote_def)

lemma stripQuotes_shorter: "hasOuterQuote s \<Longrightarrow> length (stripQuotes s) < length s"
  by (cases s) (auto simp: stripQuotes_def hasOuterQuote_def Let_def)

lemma cleanGeneratedContent_normalise: "cleanGeneratedContent s = normalise (stripQuotes s)"
  by (simp add: cleanGeneratedContent_def normalise_def)

section \<open>Properties of the script clean-up\<close>

text \<open>
  C6, as stated: \<open>cleanGeneratedContent\<close> is idempotent on every string. It is not: a text
  inside two pairs of quotation marks loses one pair at each application.
\<close>

theorem cleanGeneratedContent_not_idempotent:
  "cleanGeneratedContent (cleanGeneratedContent (0x22 # 0x22 # js ''a'' @ [0x22, 0x22]))
     \<noteq> cleanGeneratedContent (0x22 # 0x22 # js ''a'' @ [0x22, 0x22])"
  by (simp add: cleanGeneratedContent_def stripQuotes_def trim_def isQuote_def isWhiteSpace_def
        js_def LF_def SP_def)

text \<open>
  C6, amended: applying \<open>cleanGeneratedContent\<close> twice yields the same result as applying
  it once exactly when the result of the first application neither begins nor ends with a
  quotation mark; the normalisation of white space is idempotent on every string.
\<close>

theorem cleanGeneratedContent_idempotent_iff:
  "(cleanGeneratedContent (cleanGeneratedContent s) = cleanGeneratedContent s
      \<longleftrightarrow> \<not> hasOuterQuote (cleanGeneratedContent s))
   \<and> normalise (normalise s) = normalise s"
proof (intro conjI iffI)
  assume eq: "cleanGeneratedContent (cleanGeneratedContent s) = cleanGeneratedContent s"
  show "\<not> hasOuterQuote (cleanGeneratedContent s)"
  proof
    assume "hasOuterQuote (cleanGeneratedContent s)"
    then have "length (stripQuotes (cleanGeneratedContent s)) < length (cleanGeneratedContent s)"
      by (rule stripQuotes_shorter)
    moreover have "length (cleanGeneratedContent (cleanGeneratedContent s))
                     \<le> length (stripQuotes (cleanGeneratedContent s))"
      by (simp add: cleanGeneratedContent_normalise length_normalise)
    ultimately show False using eq by simp
  qed
next
  assume "\<not> hasOuterQuote (cleanGeneratedContent s)"
  then have "stripQuotes (cleanGeneratedContent s) = cleanGeneratedContent s"
    by (rule stripQuotes_id)
  then show "cleanGeneratedContent (cleanGeneratedContent s) = cleanGeneratedContent s"
    by (simp add: cleanGeneratedContent_normalise normalise_idem)
next
  show "normalise (normalise s) = normalise s" by (rule normalise_idem)
qed

theorem cleanGeneratedContent_idempotent_iff_witness:
  "\<not> hasOuterQuote (cleanGeneratedContent (js '' a  b ''))
   \<and> cleanGeneratedContent (cleanGeneratedContent (js '' a  b '')) = cleanGeneratedContent (js '' a  b '')
   \<and> cleanGeneratedContent (js '' a  b '') = js ''a b''"
proof -
  have c: "cleanGeneratedContent (js '' a  b '') = js ''a b''"
    by (simp add: cleanGeneratedContent_def stripQuotes_def trim_def isQuote_def isWhiteSpace_def
          js_def LF_def SP_def)
  have h: "\<not> hasOuterQuote (cleanGeneratedContent (js '' a  b ''))"
    by (simp add: c) (simp add: hasOuterQuote_def isQuote_def js_def)
  with cleanGeneratedContent_idempotent_iff [of "js '' a  b ''"] c show ?thesis by blast
qed

section \<open>Properties of the progress formula\<close>

lemma progressAfter_div:
  assumes "0 < n"
  shows "progressAfter i n = 40 + (80 * (i + 1) + n) div (2 * n)"
proof -
  have n0: "(of_nat n :: rat) \<noteq> 0" using assms by simp
  have "40 + (of_nat (i + 1) / of_nat n :: rat) * 40 + 1 / 2
          = of_nat (80 * n + (80 * (i + 1) + n)) / of_nat (2 * n)"
    using n0 by (simp add: field_simps)
  then have "\<lfloor>40 + (of_nat (i + 1) / of_nat n :: rat) * 40 + 1 / 2\<rfloor>
          = int ((80 * n + (80 * (i + 1) + n)) div (2 * n))"
    by (simp only: floor_divide_of_nat_eq)
  also have "(80 * n + (80 * (i + 1) + n)) div (2 * n) = 40 + (80 * (i + 1) + n) div (2 * n)"
  proof -
    have "80 * n + (80 * (i + 1) + n) = (80 * (i + 1) + n) + 40 * (2 * n)" by simp
    then show ?thesis using assms by (simp only: div_mult_self1)
  qed
  finally show ?thesis by (simp add: progressAfter_def)
qed

lemma progressAfter_mono: "0 < n \<Longrightarrow> i \<le> j \<Longrightarrow> progressAfter i n \<le> progressAfter j n"
  by (simp add: progressAfter_div div_le_mono)

lemma progressAfter_lower: "0 < n \<Longrightarrow> 40 \<le> progressAfter i n"
  by (simp add: progressAfter_div)

lemma progressAfter_upper: "i < n \<Longrightarrow> progressAfter i n \<le> 80"
proof -
  assume a: "i < n"
  then have "80 * (i + 1) + n \<le> 81 * n" by simp
  then have "(80 * (i + 1) + n) div (2 * n) \<le> (81 * n) div (2 * n)" by (rule div_le_mono)
  also have "(81 * n) div (2 * n) = 40" using a by simp
  finally show ?thesis using a by (simp add: progressAfter_div)
qed

section \<open>Properties of the pipeline\<close>

lemma upt_add_Suc: "[i..<i + Suc k] = i # [i + 1..<i + 1 + k]"
  by (simp add: upt_conv_Cons del: upt_Suc)

lemma processSlides_history:
  assumes "processSlides sv fp lang n i xs acc h = (h', r)" and "h \<noteq> []"
  shows "\<exists>m\<le>length xs.
           h' = h @ map (\<lambda>k. (last h)\<lparr>processingProgress := progressAfter k n\<rparr>) [i..<i + m]
           \<and> (case r of Inr ps \<Rightarrow> m = length xs | Inl e \<Rightarrow> m < length xs)"
  using assms
proof (induction xs arbitrary: i acc h)
  case Nil
  then show ?case by auto
next
  case (Cons s rest)
  let ?script = "generateLectureContent (chatCompletion sv i) (content s) fp lang"
  show ?case
  proof (cases "generateSpeech (synthesize sv i) ?script lang")
    case (Inl e)
    with Cons.prems have "h' = h" and "r = Inl e" by (simp_all add: Let_def)
    then show ?thesis by (intro exI[of _ 0]) simp
  next
    case (Inr url)
    let ?h1 = "findByIdAndUpdate (\<lambda>l. l\<lparr>processingProgress := progressAfter i n\<rparr>) h"
    let ?acc1 = "acc @ [\<lparr>content = content s, imageUrl = imageUrl s, slideNumber = i + 1,
                    aiScript = ?script, audioUrl = url, duration = 0\<rparr>]"
    from Cons.prems Inr have run: "processSlides sv fp lang n (i + 1) rest ?acc1 ?h1 = (h', r)"
      by (simp add: Let_def)
    have ne: "?h1 \<noteq> []" by (simp add: findByIdAndUpdate_def)
    from Cons.IH[OF run ne] obtain m where m: "m \<le> length rest"
      and h': "h' = ?h1 @ map (\<lambda>k. (last ?h1)\<lparr>processingProgress := progressAfter k n\<rparr>) [i + 1..<i + 1 + m]"
      and r: "(case r of Inr ps \<Rightarrow> m = length rest | Inl e \<Rightarrow> m < length rest)"
      by blast
    have "[i..<i + Suc m] = i # [i + 1..<i + 1 + m]"
      by (rule upt_add_Suc)
    with h' have "h' = h @ map (\<lambda>k. (last h)\<lparr>processingProgress := progressAfter k n\<rparr>) [i..<i + Suc m]"
      by (simp add: findByIdAndUpdate_def)
    moreover have "(case r of Inr ps \<Rightarrow> Suc m = length (s # rest) | Inl e \<Rightarrow> Suc m < length (s # rest))"
      using r by (cases r) auto
    ultimately show ?thesis using m by (intro exI[of _ "Suc m"]) simp
  qed
qed

lemma processSlides_slides:
  assumes "processSlides sv fp lang n i xs acc h = (h', Inr ps)"
  shows "length ps = length acc + length xs
         \<and> map duration ps = map duration acc @ replicate (length xs) 0
         \<and> map slideNumber ps = map slideNumber acc @ map Suc [i..<i + length xs]
         \<and> map content ps = map content acc @ map content xs"
  using assms
proof (induction xs arbitrary: i acc h)
  case Nil
  then show ?case by auto
next
  case (Cons s rest)
  let ?script = "generateLectureContent (chatCompletion sv i) (content s) fp lang"
  show ?case
  proof (cases "generateSpeech (synthesize sv i) ?script lang")
    case (Inl e)
    with Cons.prems show ?thesis by (simp add: Let_def)
  next
    case (Inr url)
    let ?h1 = "findByIdAndUpdate (\<lambda>l. l\<lparr>processingProgress := progressAfter i n\<rparr>) h"
    let ?acc1 = "acc @ [\<lparr>content = content s, imageUrl = imageUrl s, slideNumber = i + 1,
                    aiScript = ?script, audioUrl = url, duration = 0\<rparr>]"
    from Cons.prems Inr have run: "processSlides sv fp lang n (i + 1) rest ?acc1 ?h1 = (h', Inr ps)"
      by (simp add: Let_def)
    have "[i..<i + length (s # rest)] = i # [i + 1..<i + 1 + length rest]"
      using upt_add_Suc[of i "length rest"] by simp
    with Cons.IH[OF run] show ?thesis
      by (simp add: replicate_app_Cons_same del: upt_Suc)
  qed
qed

lemma sorted_progressAfter:
  assumes "m \<le> n"
  shows "sorted (map (\<lambda>k. progressAfter k n) [0..<m])
         \<and> (\<forall>p\<in>set (map (\<lambda>k. progressAfter k n) [0..<m]). 40 \<le> p \<and> p \<le> 80)"
proof (cases "n = 0")
  case True
  with assms show ?thesis by simp
next
  case False
  then have n: "0 < n" by simp
  have "sorted_wrt (\<lambda>x y. progressAfter x n \<le> progressAfter y n) [0..<m]"
    by (rule sorted_wrt_mono_rel[of _ "(<)"]) (auto intro: progressAfter_mono[OF n])
  moreover have "\<forall>k\<in>set [0..<m]. 40 \<le> progressAfter k n \<and> progressAfter k n \<le> 80"
    using assms n by (auto intro: progressAfter_lower progressAfter_upper)
  ultimately show ?thesis by (simp add: sorted_map)
qed

lemma tryBlock_track:
  assumes "tryBlock sv req f lec = (h, r)"
  shows "\<exists>ps. sorted ps \<and> (\<forall>p\<in>set ps. 20 \<le> p \<and> p \<le> 80)
           \<and> map track h = track lec # (Processing, 10) # map (Pair Processing) ps
                @ (case r of Inr sl \<Rightarrow> [(Ready, 100)] | Inl e \<Rightarrow> [])"
proof (cases "s3Upload sv")
  case (Inl e)
  with assms have "h = findByIdAndUpdate
                 (\<lambda>l. l\<lparr>fileName := originalname f, fileType := fileExtension (originalname f), fileSize := size' f,
                        status := Processing, processingProgress := 10\<rparr>) [lec]" and "r = Inl e"
    by (auto simp: tryBlock_def Let_def)
  then show ?thesis
    by (intro exI[of _ "[]"]) (simp add: findByIdAndUpdate_def track_def)
next
  case loc: (Inr location)
  show ?thesis
  proof (cases "extractSlides sv (fileExtension (originalname f)) (buffer f)")
    case (Inl e)
    with assms loc have "map track h = [track lec, (Processing, 10), (Processing, 20)]" and "r = Inl e"
      by (auto simp: tryBlock_def Let_def findByIdAndUpdate_def track_def)
    then show ?thesis
      by (intro exI[of _ "[20]"]) simp
  next
    case ex: (Inr xs)
    define h3 where "h3 = findByIdAndUpdate
                                 (\<lambda>l. l\<lparr>slides := skeletons 0 xs, processingProgress := 40\<rparr>)
        (findByIdAndUpdate (\<lambda>l. l\<lparr>fileUrl := location, processingProgress := 20\<rparr>)
        (findByIdAndUpdate
                 (\<lambda>l. l\<lparr>fileName := originalname f, fileType := fileExtension (originalname f), fileSize := size' f,
                        status := Processing, processingProgress := 10\<rparr>) [lec]))"
    have h3: "map track h3 = [track lec, (Processing, 10), (Processing, 20), (Processing, 40)]"
      and h3ne: "h3 \<noteq> []" and h3last: "status (last h3) = Processing"
      by (simp_all add: h3_def findByIdAndUpdate_def track_def)
    obtain h4 r4 where loop: "processSlides sv (basePrompt sv @ [LF, LF] @ aiPrompt req) (language req)
                                (length xs) 0 xs [] h3 = (h4, r4)"
      by (cases "processSlides sv (basePrompt sv @ [LF, LF] @ aiPrompt req) (language req)
                                (length xs) 0 xs [] h3") auto
    from processSlides_history[OF loop h3ne] obtain m where m: "m \<le> length xs"
      and h4: "h4 = h3 @ map (\<lambda>k. (last h3)\<lparr>processingProgress := progressAfter k (length xs)\<rparr>) [0..<0 + m]"
      by blast
    have h4t: "map track h4 = map track h3 @ map (Pair Processing) (map (\<lambda>k. progressAfter k (length xs)) [0..<m])"
      using h3last by (simp add: h4 track_def comp_def)
    let ?ps = "20 # 40 # map (\<lambda>k. progressAfter k (length xs)) [0..<m]"
    have sorted: "sorted ?ps \<and> (\<forall>p\<in>set ?ps. 20 \<le> p \<and> p \<le> 80)"
      using sorted_progressAfter[OF m] by auto
    show ?thesis
    proof (cases r4)
      case (Inl e)
      with assms loc ex loop have "h = h4" and "r = Inl e"
        by (auto simp: tryBlock_def Let_def h3_def)
      with h4t h3 sorted show ?thesis
        by (intro exI[of _ ?ps]) simp
    next
      case (Inr sl)
      with assms loc ex loop have "map track h = map track h4 @ [(Ready, 100)]" and "r = Inr sl"
        by (auto simp: tryBlock_def Let_def h3_def findByIdAndUpdate_def track_def)
      with h4t h3 sorted show ?thesis
        by (intro exI[of _ ?ps]) simp
    qed
  qed
qed

lemma uploadLecture_track:
  "\<exists>ps. sorted ps \<and> (\<forall>p\<in>set ps. 10 \<le> p \<and> p \<le> 80)
     \<and> (map track (tl (snd (uploadLecture sv req stored))) = []
        \<or> ps \<noteq> [] \<and> map track (tl (snd (uploadLecture sv req stored)))
                         = map (Pair Processing) ps @ [(Ready, 100)]
        \<or> ps \<noteq> [] \<and> map track (tl (snd (uploadLecture sv req stored)))
                         = map (Pair Processing) ps @ [(Error, last ps)])"
proof (cases "file' req")
  case None
  then show ?thesis
    by (intro exI[of _ "[]"]) (simp add: uploadLecture_def split: option.splits)
next
  case f: (Some f)
  show ?thesis
  proof (cases "fileExtension (originalname f) \<in> set (allowedTypes sv) \<and>
                (\<exists>lec. stored = Some lec \<and> owner lec = user req)")
    case False
    with f show ?thesis
      by (intro exI[of _ "[]"]) (auto simp: uploadLecture_def split: option.splits)
  next
    case True
    then obtain lec where lec: "stored = Some lec" "owner lec = user req"
      and ext: "fileExtension (originalname f) \<in> set (allowedTypes sv)" by blast
    obtain h r where tb: "tryBlock sv req f lec = (h, r)"
      by (cases "tryBlock sv req f lec") auto
    from tryBlock_track[OF tb] obtain qs where qs: "sorted qs" "\<forall>p\<in>set qs. 20 \<le> p \<and> p \<le> 80"
      and h: "map track h = track lec # (Processing, 10) # map (Pair Processing) qs
                @ (case r of Inr sl \<Rightarrow> [(Ready, 100)] | Inl e \<Rightarrow> [])"
      by auto
    let ?ps = "10 # qs"
    have ps: "sorted ?ps \<and> (\<forall>p\<in>set ?ps. 10 \<le> p \<and> p \<le> 80)"
      using qs by auto
    show ?thesis
    proof (cases r)
      case (Inr sl)
      with f lec ext tb have "snd (uploadLecture sv req stored) = h"
        by (simp add: uploadLecture_def)
      with h Inr have "map track (tl (snd (uploadLecture sv req stored)))
                         = map (Pair Processing) ?ps @ [(Ready, 100)]"
        by (simp add: map_tl)
      with ps show ?thesis by (intro exI[of _ ?ps]) simp
    next
      case (Inl e)
      with h have hne: "h \<noteq> []" and hl: "processingProgress (last h) = last ?ps"
        and ht: "map track (tl h) = map (Pair Processing) ?ps"
      proof -
        from h Inl have eq: "map track h = track lec # map (Pair Processing) ?ps" by simp
        then show "h \<noteq> []" by auto
        from eq show "map track (tl h) = map (Pair Processing) ?ps" by (simp add: map_tl)
        from eq have "track (last h) = last (track lec # map (Pair Processing) ?ps)"
          using \<open>h \<noteq> []\<close> by (metis last_map)
        also have "\<dots> = (Processing, last ?ps)" by (simp add: last_map)
        finally show "processingProgress (last h) = last ?ps" by (simp add: track_def)
      qed
      from f lec ext tb Inl have "snd (uploadLecture sv req stored)
            = h @ [(last h)\<lparr>status := Error, errorMessage := e\<rparr>]"
        by (simp add: uploadLecture_def findByIdAndUpdate_def)
      with hne hl ht have "map track (tl (snd (uploadLecture sv req stored)))
                         = map (Pair Processing) ?ps @ [(Error, last ?ps)]"
        by (simp add: track_def)
      with ps show ?thesis by (intro exI[of _ ?ps]) simp
    qed
  qed
qed

lemma sorted_le_last: "sorted ps \<Longrightarrow> p \<in> set ps \<Longrightarrow> p \<le> last (ps :: nat list)"
  by (induction ps) auto

lemma sorted_snoc_last: "sorted ps \<Longrightarrow> ps \<noteq> [] \<Longrightarrow> last ps \<le> x \<Longrightarrow> sorted (ps @ [x :: nat])"
  using sorted_le_last[of ps] by (fastforce simp: sorted_append)

lemma map_snd_Pair: "map snd (map (Pair a) ps) = ps"
  by (simp add: comp_def)

lemma progress_written:
  "sorted (map processingProgress (tl (snd (uploadLecture sv req stored))))
   \<and> (\<forall>l\<in>set (tl (snd (uploadLecture sv req stored))).
         10 \<le> processingProgress l \<and> processingProgress l \<le> 100
         \<and> (status l = Ready \<longrightarrow> processingProgress l = 100))"
proof -
  let ?h = "tl (snd (uploadLecture sv req stored))"
  have pp: "map processingProgress ?h = map snd (map track ?h)"
    by (simp add: track_def comp_def)
  from uploadLecture_track[of sv req stored] obtain ps where
    ps: "sorted ps" "\<forall>p\<in>set ps. 10 \<le> p \<and> p \<le> 80"
    and cases: "map track ?h = []
        \<or> ps \<noteq> [] \<and> map track ?h = map (Pair Processing) ps @ [(Ready, 100)]
        \<or> ps \<noteq> [] \<and> map track ?h = map (Pair Processing) ps @ [(Error, last ps)]"
    by blast
  have last80: "ps \<noteq> [] \<Longrightarrow> last ps \<le> 80 \<and> 10 \<le> last ps"
    using ps(2) last_in_set by blast
  have srt: "sorted (map snd (map track ?h))"
    and all: "\<forall>t\<in>set (map track ?h). 10 \<le> snd t \<and> snd t \<le> 100 \<and> (fst t = Ready \<longrightarrow> snd t = 100)"
  proof -
    from cases consider
        (none) "map track ?h = []"
      | (ready) "ps \<noteq> []" "map track ?h = map (Pair Processing) ps @ [(Ready, 100)]"
      | (error) "ps \<noteq> []" "map track ?h = map (Pair Processing) ps @ [(Error, last ps)]"
      by blast
    then have "sorted (map snd (map track ?h))
       \<and> (\<forall>t\<in>set (map track ?h). 10 \<le> snd t \<and> snd t \<le> 100 \<and> (fst t = Ready \<longrightarrow> snd t = 100))"
    proof cases
      case none
      then show ?thesis by (simp only:) simp
    next
      case ready
      have "sorted (ps @ [100])" using ps(1) ready(1) last80[OF ready(1)] by (intro sorted_snoc_last) auto
      with ps(2) show ?thesis by (simp only: ready(2)) (auto simp: map_snd_Pair simp del: map_map)
    next
      case error
      have "sorted (ps @ [last ps])" using ps(1) error(1) by (intro sorted_snoc_last) auto
      with ps(2) last80[OF error(1)] show ?thesis
        by (simp only: error(2)) (auto simp: map_snd_Pair simp del: map_map)
    qed
    then show "sorted (map snd (map track ?h))"
      and "\<forall>t\<in>set (map track ?h). 10 \<le> snd t \<and> snd t \<le> 100 \<and> (fst t = Ready \<longrightarrow> snd t = 100)"
      by blast+
  qed
  have bounds: "\<forall>l\<in>set ?h. 10 \<le> processingProgress l \<and> processingProgress l \<le> 100
         \<and> (status l = Ready \<longrightarrow> processingProgress l = 100)"
  proof
    fix l assume "l \<in> set ?h"
    then have "track l \<in> set (map track ?h)" by simp
    with all show "10 \<le> processingProgress l \<and> processingProgress l \<le> 100
         \<and> (status l = Ready \<longrightarrow> processingProgress l = 100)"
      unfolding track_def by fastforce
  qed
  from srt have "sorted (map processingProgress ?h)" by (simp only: pp)
  with bounds show ?thesis by blast
qed

lemma findByIdAndUpdate_hd: "h \<noteq> [] \<Longrightarrow> hd (findByIdAndUpdate upd h) = hd h"
  by (cases h) (simp_all add: findByIdAndUpdate_def)

lemma tryBlock_hd:
  assumes "tryBlock sv req f lec = (h, r)"
  shows "h \<noteq> [] \<and> hd h = lec"
proof (cases "s3Upload sv")
  case (Inl e)
  with assms show ?thesis by (auto simp: tryBlock_def Let_def findByIdAndUpdate_def)
next
  case loc: (Inr location)
  show ?thesis
  proof (cases "extractSlides sv (fileExtension (originalname f)) (buffer f)")
    case (Inl e)
    with assms loc show ?thesis by (auto simp: tryBlock_def Let_def findByIdAndUpdate_def)
  next
    case ex: (Inr xs)
    define h3 where "h3 = findByIdAndUpdate
                                 (\<lambda>l. l\<lparr>slides := skeletons 0 xs, processingProgress := 40\<rparr>)
        (findByIdAndUpdate (\<lambda>l. l\<lparr>fileUrl := location, processingProgress := 20\<rparr>)
        (findByIdAndUpdate
                 (\<lambda>l. l\<lparr>fileName := originalname f, fileType := fileExtension (originalname f), fileSize := size' f,
                        status := Processing, processingProgress := 10\<rparr>) [lec]))"
    have h3: "h3 \<noteq> []" "hd h3 = lec" by (simp_all add: h3_def findByIdAndUpdate_def)
    obtain h4 r4 where loop: "processSlides sv (basePrompt sv @ [LF, LF] @ aiPrompt req) (language req)
                                (length xs) 0 xs [] h3 = (h4, r4)"
      by (cases "processSlides sv (basePrompt sv @ [LF, LF] @ aiPrompt req) (language req)
                                (length xs) 0 xs [] h3") auto
    from processSlides_history[OF loop h3(1)] h3 have h4: "h4 \<noteq> []" "hd h4 = lec" by auto
    show ?thesis
    proof (cases r4)
      case (Inl e)
      with assms loc ex loop have "h = h4" by (auto simp: tryBlock_def Let_def h3_def)
      with h4 show ?thesis by simp
    next
      case (Inr sl)
      with assms loc ex loop have "\<exists>u. h = findByIdAndUpdate u h4"
        by (auto simp: tryBlock_def Let_def h3_def)
      with h4 show ?thesis by (auto simp: findByIdAndUpdate_hd) (simp add: findByIdAndUpdate_def)
    qed
  qed
qed

lemma uploadLecture_hd:
  "snd (uploadLecture sv req (Some lec)) \<noteq> [] \<and> hd (snd (uploadLecture sv req (Some lec))) = lec"
proof (cases "file' req")
  case None
  then show ?thesis by (simp add: uploadLecture_def)
next
  case f: (Some f)
  obtain h r where tb: "tryBlock sv req f lec = (h, r)"
    by (cases "tryBlock sv req f lec") auto
  from tryBlock_hd[OF tb] have h: "h \<noteq> []" "hd h = lec" by simp_all
  show ?thesis
  proof (cases r)
    case (Inl e)
    with f tb h show ?thesis by (simp add: uploadLecture_def findByIdAndUpdate_def)
  next
    case (Inr sl)
    with f tb h show ?thesis by (simp add: uploadLecture_def)
  qed
qed

text \<open>
  C3: within one run of the pipeline the progress values written to the document never
  decrease, from the first update of the run to the last, the update of the \<open>catch\<close>
  block included (it leaves the progress as it is); for a document whose progress is at
  most 10 before the run, a new lecture among them, the values never decrease from that
  state on; every value written lies between 10 and 100; and a state written with status
  \<open>ready\<close> has progress exactly 100. In this model the progress formula is evaluated in
  exact arithmetic.
\<close>

theorem progress_monotone:
  "sorted (map processingProgress (tl (snd (uploadLecture sv req stored))))
   \<and> (\<forall>lec. stored = Some lec \<and> processingProgress lec \<le> 10 \<longrightarrow>
          sorted (map processingProgress (snd (uploadLecture sv req stored))))
   \<and> (\<forall>l\<in>set (tl (snd (uploadLecture sv req stored))).
         10 \<le> processingProgress l \<and> processingProgress l \<le> 100
         \<and> (status l = Ready \<longrightarrow> processingProgress l = 100))"
proof -
  note w = progress_written[of sv req stored]
  have "sorted (map processingProgress (snd (uploadLecture sv req stored)))"
    if "stored = Some lec" and low: "processingProgress lec \<le> 10" for lec
  proof -
    from uploadLecture_hd[of sv req lec] that(1)
    obtain ws where ws: "snd (uploadLecture sv req stored) = lec # ws"
      by (cases "snd (uploadLecture sv req stored)") auto
    from w have "sorted (map processingProgress ws)"
      and "\<forall>l\<in>set ws. 10 \<le> processingProgress l"
      by (simp_all add: ws)
    with low show ?thesis by (fastforce simp: ws)
  qed
  with w show ?thesis by blast
qed

lemma track_projections:
  "map processingProgress (tl h) = map snd (tl (map track h))"
  "map status h = map fst (map track h)"
  "h \<noteq> [] \<Longrightarrow> status (last h) = fst (last (map track h))"
  "h \<noteq> [] \<Longrightarrow> processingProgress (last h) = snd (last (map track h))"
  by (simp_all add: track_def map_tl last_map comp_def)

text \<open>
  The run of a presentation with one slide: the progress values written are 10, 20, 40,
  80 and 100, and the last state is \<open>ready\<close> with progress 100.
\<close>

theorem progress_monotone_witness:
  "map processingProgress (tl (snd (uploadLecture plainServices deckRequest (Some freshLecture))))
     = [10, 20, 40, 80, 100]
   \<and> sorted (map processingProgress (tl (snd (uploadLecture plainServices deckRequest (Some freshLecture)))))
   \<and> sorted (map processingProgress (snd (uploadLecture plainServices deckRequest (Some freshLecture))))
   \<and> status (last (snd (uploadLecture plainServices deckRequest (Some freshLecture)))) = Ready
   \<and> processingProgress (last (snd (uploadLecture plainServices deckRequest (Some freshLecture)))) = 100"
proof -
  let ?h = "snd (uploadLecture plainServices deckRequest (Some freshLecture))"
  have t: "map track ?h =
     [(Uploading, 0), (Processing, 10), (Processing, 20), (Processing, 40), (Processing, 80), (Ready, 100)]"
    by (simp add: run_defs freshLecture_def deckRequest_def plainServices_def string_defs track_def progressAfter_div)
  then have ne: "?h \<noteq> []" by auto
  have p: "map processingProgress (tl ?h) = [10, 20, 40, 80, 100]"
    by (simp only: track_projections(1) t) simp
  have l: "status (last ?h) = Ready" "processingProgress (last ?h) = 100"
    by (simp_all only: track_projections(3,4)[OF ne] t) simp_all
  have low: "processingProgress freshLecture \<le> 10" by (simp add: freshLecture_def)
  note inst = progress_monotone[of plainServices deckRequest "Some freshLecture"]
  from inst have "sorted (map processingProgress (tl ?h))" by blast
  moreover from inst low have "sorted (map processingProgress ?h)" by blast
  ultimately show ?thesis using p l by blast
qed

lemma uploadLecture_failed:
  assumes "uploadLecture sv req stored = (UploadFailed message, history)"
  shows "\<exists>f lec h. tryBlock sv req f lec = (h, Inl message)
           \<and> history = h @ [(last h)\<lparr>status := Error, errorMessage := message\<rparr>]"
proof (cases "file' req")
  case None
  with assms show ?thesis by (simp add: uploadLecture_def)
next
  case f: (Some f)
  show ?thesis
  proof (cases stored)
    case None
    with assms f show ?thesis by (simp add: uploadLecture_def split: if_splits)
  next
    case lec: (Some lec)
    obtain h r where tb: "tryBlock sv req f lec = (h, r)"
      by (cases "tryBlock sv req f lec") auto
    show ?thesis
    proof (cases r)
      case (Inr sl)
      with assms f lec tb show ?thesis by (simp add: uploadLecture_def split: if_splits)
    next
      case (Inl e)
      with assms f lec tb have "e = message"
        and "history = h @ [(last h)\<lparr>status := Error, errorMessage := message\<rparr>]"
        by (auto simp: uploadLecture_def findByIdAndUpdate_def split: if_splits)
      with tb Inl show ?thesis by blast
    qed
  qed
qed

text \<open>
  C9: when a run ends with an exception, the last state of the document is the state
  before it with the status set to \<open>error\<close> and the error message set to the message
  of the exception; every other field, the progress counter and the slides among them, is
  as it was.
\<close>

theorem error_update_frame:
  assumes "uploadLecture sv req stored = (UploadFailed message, history)"
  shows "2 \<le> length history
         \<and> last history = (last (butlast history))\<lparr>status := Error, errorMessage := message\<rparr>
         \<and> processingProgress (last history) = processingProgress (last (butlast history))
         \<and> slides (last history) = slides (last (butlast history))"
proof -
  from uploadLecture_failed[OF assms] obtain f lec h
    where tb: "tryBlock sv req f lec = (h, Inl message)"
      and hist: "history = h @ [(last h)\<lparr>status := Error, errorMessage := message\<rparr>]"
    by blast
  from tryBlock_track[OF tb] have "h \<noteq> []" by auto
  then have "1 \<le> length h" by (cases h) auto
  with hist show ?thesis by simp
qed

text \<open>
  The run whose speech provider fails on the first slide: it ends with the message of
  \<open>generateSpeech\<close>, and the progress stays at 40.
\<close>

theorem error_update_frame_witness:
  "uploadLecture speechFailingServices notesRequest (Some freshLecture)
     = (UploadFailed (js ''Failed to generate speech''),
        snd (uploadLecture speechFailingServices notesRequest (Some freshLecture)))
   \<and> status (last (snd (uploadLecture speechFailingServices notesRequest (Some freshLecture)))) = Error
   \<and> processingProgress (last (snd (uploadLecture speechFailingServices notesRequest (Some freshLecture)))) = 40
   \<and> processingProgress (last (butlast (snd (uploadLecture speechFailingServices notesRequest (Some freshLecture))))) = 40"
proof -
  let ?run = "uploadLecture speechFailingServices notesRequest (Some freshLecture)"
  have r: "fst ?run = UploadFailed (js ''Failed to generate speech'')"
    by (simp add: run_defs freshLecture_def notesRequest_def speechFailingServices_def string_defs)
  then have e: "?run = (UploadFailed (js ''Failed to generate speech''), snd ?run)"
    by (simp add: prod_eq_iff)
  have t: "map track (snd ?run) =
     [(Uploading, 0), (Processing, 10), (Processing, 20), (Processing, 40), (Error, 40)]"
    by (simp add: run_defs freshLecture_def notesRequest_def speechFailingServices_def string_defs track_def)
  have "snd ?run \<noteq> []" using t by auto
  then have "track (last (snd ?run)) = last (map track (snd ?run))" by (simp add: last_map)
  then have l: "status (last (snd ?run)) = Error" "processingProgress (last (snd ?run)) = 40"
    by (simp_all add: t track_def)
  from error_update_frame[OF e] l e show ?thesis by simp
qed

section \<open>Properties of the extractor\<close>

lemma pdfSlides_content:
  "map content (pdfSlides render i pages) = filter (\<lambda>p. 10 < length p) (map trim pages)"
  by (induction pages arbitrary: i) (simp_all add: Let_def)

lemma filter_long_nonblank:
  "filter (\<lambda>p. 10 < length p) (map trim (filter (\<lambda>page. 0 < length (trim page)) xs))
     = filter (\<lambda>p. 10 < length p) (map trim xs)"
  by (induction xs) auto

lemma processPDF_parsed:
  assumes "parse buf = Some text"
  shows "\<exists>sl. processPDF parse render buf = Inr sl
              \<and> map content sl = filter (\<lambda>p. 10 < length p) (map trim (splitParagraphs text))"
  using assms filter_long_nonblank[of "splitParagraphs text"]
  by (simp add: processPDF_def pdfSlides_content)

lemma run_extraction_failed:
  assumes "file' req = Some f" "fileExtension (originalname f) \<in> set (allowedTypes sv)"
    "stored = Some lec" "owner lec = user req" "s3Upload sv = Inr loc"
    "extractSlides sv (fileExtension (originalname f)) (buffer f) = Inl m"
  shows "fst (uploadLecture sv req stored) = UploadFailed m
         \<and> status (last (snd (uploadLecture sv req stored))) = Error"
  using assms by (simp add: uploadLecture_def tryBlock_def Let_def findByIdAndUpdate_def)

lemma run_no_slides:
  assumes "file' req = Some f" "fileExtension (originalname f) \<in> set (allowedTypes sv)"
    "stored = Some lec" "owner lec = user req" "s3Upload sv = Inr loc"
    "extractSlides sv (fileExtension (originalname f)) (buffer f) = Inr []"
  shows "fst (uploadLecture sv req stored) = Processed []
         \<and> status (last (snd (uploadLecture sv req stored))) = Ready
         \<and> slides (last (snd (uploadLecture sv req stored))) = []"
  using assms by (simp add: uploadLecture_def tryBlock_def Let_def findByIdAndUpdate_def)

text \<open>
  C4, as stated: a valid, non-empty document yields at least one slide or an error, and no
  run ends \<open>ready\<close> with zero slides. A PDF whose text is "Hi" parses, yields no slide
  and no error, and its run ends \<open>ready\<close> with zero slides.
\<close>

theorem ready_with_zero_slides:
  "processPDF (pdfParse shortPdfServices) (renderUpload shortPdfServices) [1, 2, 3] = Inr []
   \<and> fst (uploadLecture shortPdfServices notesRequest (Some freshLecture)) = Processed []
   \<and> status (last (snd (uploadLecture shortPdfServices notesRequest (Some freshLecture)))) = Ready
   \<and> slides (last (snd (uploadLecture shortPdfServices notesRequest (Some freshLecture)))) = []
   \<and> slideCount (last (snd (uploadLecture shortPdfServices notesRequest (Some freshLecture)))) = 0"
  by (simp add: run_defs freshLecture_def notesRequest_def shortPdfServices_def string_defs)

text \<open>
  C4, amended: the extraction of a presentation yields one slide; the extraction of a PDF
  signals an error when the file cannot be parsed, and otherwise yields one slide for each
  paragraph block whose trimmed text is longer than 10 characters, which may be none. An
  extraction error aborts the run with status \<open>error\<close>; an extraction without slides
  and without error lets the run end \<open>ready\<close> with zero slides.
\<close>

theorem extraction_slide_count:
  "(\<exists>s. processPPTX (renderUpload sv) buf = Inr [s])
   \<and> (pdfParse sv buf = None \<longrightarrow>
        processPDF (pdfParse sv) (renderUpload sv) buf = Inl (js ''Failed to process PDF file''))
   \<and> (\<forall>text. pdfParse sv buf = Some text \<longrightarrow>
        (\<exists>sl. processPDF (pdfParse sv) (renderUpload sv) buf = Inr sl
              \<and> map content sl = filter (\<lambda>p. 10 < length p) (map trim (splitParagraphs text))))
   \<and> (\<forall>f lec loc.
         file' req = Some f \<and> buffer f = buf
         \<and> fileExtension (originalname f) \<in> set (allowedTypes sv)
         \<and> stored = Some lec \<and> owner lec = user req \<and> s3Upload sv = Inr loc \<longrightarrow>
         (\<forall>m. extractSlides sv (fileExtension (originalname f)) buf = Inl m \<longrightarrow>
              fst (uploadLecture sv req stored) = UploadFailed m
              \<and> status (last (snd (uploadLecture sv req stored))) = Error)
         \<and> (extractSlides sv (fileExtension (originalname f)) buf = Inr [] \<longrightarrow>
              fst (uploadLecture sv req stored) = Processed []
              \<and> status (last (snd (uploadLecture sv req stored))) = Ready
              \<and> slides (last (snd (uploadLecture sv req stored))) = []))"
proof (intro conjI allI impI)
  show "\<exists>s. processPPTX (renderUpload sv) buf = Inr [s]"
    by (simp add: processPPTX_def)
next
  assume "pdfParse sv buf = None"
  then show "processPDF (pdfParse sv) (renderUpload sv) buf = Inl (js ''Failed to process PDF file'')"
    by (simp add: processPDF_def)
next
  fix t assume "pdfParse sv buf = Some t"
  then show "\<exists>sl. processPDF (pdfParse sv) (renderUpload sv) buf = Inr sl
              \<and> map content sl = filter (\<lambda>p. 10 < length p) (map trim (splitParagraphs t))"
    by (rule processPDF_parsed)
next
  fix f lec loc m
  assume g: "file' req = Some f \<and> buffer f = buf
         \<and> fileExtension (originalname f) \<in> set (allowedTypes sv)
         \<and> stored = Some lec \<and> owner lec = user req \<and> s3Upload sv = Inr loc"
    and e: "extractSlides sv (fileExtension (originalname f)) buf = Inl m"
  then have r: "fst (uploadLecture sv req stored) = UploadFailed m
         \<and> status (last (snd (uploadLecture sv req stored))) = Error"
    using run_extraction_failed[of req f sv stored lec loc m] by auto
  from r show "fst (uploadLecture sv req stored) = UploadFailed m" ..
  from r show "status (last (snd (uploadLecture sv req stored))) = Error" ..
next
  fix f lec loc
  assume g: "file' req = Some f \<and> buffer f = buf
         \<and> fileExtension (originalname f) \<in> set (allowedTypes sv)
         \<and> stored = Some lec \<and> owner lec = user req \<and> s3Upload sv = Inr loc"
    and e: "extractSlides sv (fileExtension (originalname f)) buf = Inr []"
  then have r: "fst (uploadLecture sv req stored) = Processed []
         \<and> status (last (snd (uploadLecture sv req stored))) = Ready
         \<and> slides (last (snd (uploadLecture sv req stored))) = []"
    using run_no_slides[of req f sv stored lec loc] by auto
  from r show "fst (uploadLecture sv req stored) = Processed []" by blast
  from r show "status (last (snd (uploadLecture sv req stored))) = Ready" by blast
  from r show "slides (last (snd (uploadLecture sv req stored))) = []" by blast
qed

text \<open>
  A PDF of two paragraphs yields two slides; a PDF that does not parse aborts its run; the
  PDF whose text is "Hi" yields no slide and its run ends \<open>ready\<close>.
\<close>

theorem extraction_slide_count_witness:
  "processPDF (pdfParse speechFailingServices) (renderUpload speechFailingServices) [1, 2, 3]
     = Inr [\<lparr>content = js ''First slide text'',
             imageUrl = js ''https://via.placeholder.com/800x600/f8f9fa/333?text=Slide+1''\<rparr>,
            \<lparr>content = js ''Second slide text'',
             imageUrl = js ''https://via.placeholder.com/800x600/f8f9fa/333?text=Slide+2''\<rparr>]
   \<and> processPDF (pdfParse refusingServices) (renderUpload refusingServices) [1, 2, 3]
     = Inl (js ''Failed to process PDF file'')
   \<and> fst (uploadLecture refusingServices notesRequest (Some freshLecture))
     = UploadFailed (js ''Failed to process PDF file'')
   \<and> status (last (snd (uploadLecture refusingServices notesRequest (Some freshLecture)))) = Error
   \<and> fst (uploadLecture shortPdfServices notesRequest (Some freshLecture)) = Processed []
   \<and> status (last (snd (uploadLecture shortPdfServices notesRequest (Some freshLecture)))) = Ready"
proof -
  let ?f = "\<lparr>originalname = js ''notes.pdf'', size' = 3, buffer = [1, 2, 3]\<rparr>"
  have two: "processPDF (pdfParse speechFailingServices) (renderUpload speechFailingServices) [1, 2, 3]
     = Inr [\<lparr>content = js ''First slide text'',
             imageUrl = js ''https://via.placeholder.com/800x600/f8f9fa/333?text=Slide+1''\<rparr>,
            \<lparr>content = js ''Second slide text'',
             imageUrl = js ''https://via.placeholder.com/800x600/f8f9fa/333?text=Slide+2''\<rparr>]"
    by (simp add: run_defs freshLecture_def notesRequest_def refusingServices_def speechFailingServices_def shortPdfServices_def string_defs)
  have none: "pdfParse refusingServices [1, 2, 3] = None"
    by (simp add: refusingServices_def)
  have g1: "file' notesRequest = Some ?f \<and> buffer ?f = [1, 2, 3]
      \<and> fileExtension (originalname ?f) \<in> set (allowedTypes refusingServices)
      \<and> Some freshLecture = Some freshLecture \<and> owner freshLecture = user notesRequest
      \<and> s3Upload refusingServices = Inr (js ''s3/deck'')"
    by (simp add: freshLecture_def notesRequest_def refusingServices_def speechFailingServices_def shortPdfServices_def fileExtension_def string_defs)
  have g2: "file' notesRequest = Some ?f \<and> buffer ?f = [1, 2, 3]
      \<and> fileExtension (originalname ?f) \<in> set (allowedTypes shortPdfServices)
      \<and> Some freshLecture = Some freshLecture \<and> owner freshLecture = user notesRequest
      \<and> s3Upload shortPdfServices = Inr (js ''s3/notes'')"
    by (simp add: freshLecture_def notesRequest_def refusingServices_def speechFailingServices_def shortPdfServices_def fileExtension_def string_defs)
  have ext: "fileExtension (originalname ?f) = js ''pdf''"
    by (simp add: fileExtension_def string_defs)
  have e1: "extractSlides refusingServices (fileExtension (originalname ?f)) [1, 2, 3]
              = Inl (js ''Failed to process PDF file'')"
    unfolding ext by (simp add: extractSlides_def processPDF_def refusingServices_def js_def)
  have e2: "extractSlides shortPdfServices (fileExtension (originalname ?f)) [1, 2, 3] = Inr []"
    unfolding ext by (simp add: extractSlides_def processPDF_def shortPdfServices_def string_defs)
  note i1 = extraction_slide_count[of refusingServices "[1, 2, 3]" notesRequest "Some freshLecture"]
  note i2 = extraction_slide_count[of shortPdfServices "[1, 2, 3]" notesRequest "Some freshLecture"]
  from i1 none have a: "processPDF (pdfParse refusingServices) (renderUpload refusingServices) [1, 2, 3]
     = Inl (js ''Failed to process PDF file'')" by blast
  note p1 = i1[THEN conjunct2, THEN conjunct2, THEN conjunct2, rule_format, OF g1]
  note p2 = i2[THEN conjunct2, THEN conjunct2, THEN conjunct2, rule_format, OF g2]
  from p1 e1
  have b: "fst (uploadLecture refusingServices notesRequest (Some freshLecture))
             = UploadFailed (js ''Failed to process PDF file'')
           \<and> status (last (snd (uploadLecture refusingServices notesRequest (Some freshLecture)))) = Error"
    by blast
  from p2 e2
  have c: "fst (uploadLecture shortPdfServices notesRequest (Some freshLecture)) = Processed []
           \<and> status (last (snd (uploadLecture shortPdfServices notesRequest (Some freshLecture)))) = Ready"
    by blast
  from two a b c show ?thesis by blast
qed

section \<open>Properties of the speech synthesizer\<close>

lemma collapsed_ws_SP: "collapsed s \<Longrightarrow> c \<in> set s \<Longrightarrow> isWhiteSpace c \<Longrightarrow> c = SP"
  by (induction s) (auto simp: collapsed_Cons_iff)

lemma set_trim: "set (trim s) \<subseteq> set s"
proof -
  have "set (trim s) \<subseteq> set (dropWhile isWhiteSpace s)"
    unfolding trim_def using set_dropWhileD[of _ isWhiteSpace "rev (dropWhile isWhiteSpace s)"]
    by auto
  also have "\<dots> \<subseteq> set s" using set_dropWhileD[of _ isWhiteSpace s] by auto
  finally show ?thesis .
qed

lemma ttsBase_chars: "c \<in> set (ttsBase text) \<Longrightarrow> isTTSOutputChar c"
proof -
  assume "c \<in> set (ttsBase text)"
  then have "c \<in> set (filter keptForTTS (replaceRuns isWhiteSpace text))"
    unfolding ttsBase_def using set_trim by blast
  then have k: "keptForTTS c" and m: "c \<in> set (replaceRuns isWhiteSpace text)" by auto
  from m have "isWhiteSpace c \<Longrightarrow> c = SP"
    by (rule collapsed_ws_SP[OF collapsed_replaceRuns])
  with k show ?thesis by (auto simp: keptForTTS_def isTTSOutputChar_def)
qed

lemma isTTSOutputChar_ascii: "isTTSOutputChar c \<Longrightarrow> c < 0x80"
  by (auto simp: isTTSOutputChar_def isWordChar_def isTTSPunctuation_def SP_def
        word_le_nat_alt word_less_nat_alt)

lemma russianLower_ascii: "c < 0x80 \<Longrightarrow> russianLower c = c"
  by (auto simp: russianLower_def word_le_nat_alt word_less_nat_alt)

lemma germanSharpS_ascii: "\<forall>c\<in>set s. c < 0x80 \<Longrightarrow> germanSharpS s = s"
  by (induction s) (auto simp: germanSharpS_def)

lemma languageSpecific_ascii: "\<forall>c\<in>set s. c < 0x80 \<Longrightarrow> languageSpecific lang s = s"
  by (auto simp: languageSpecific_def germanSharpS_ascii russianLower_ascii intro: map_idI)

text \<open>
  C10: for every text and language the result of \<open>prepareTextForTTS\<close> consists of
  ASCII word characters, spaces and the marks \<open>. , ! ? -\<close> only; the text that
  reaches the language-specific step is ASCII already, so that step changes nothing; and
  the result has at most 4003 characters.
\<close>

theorem prepareTextForTTS_output:
  "(\<forall>c\<in>set (prepareTextForTTS text lang). isWordChar c \<or> c = SP \<or> isTTSPunctuation c)
   \<and> (\<forall>c\<in>set (ttsBase text). c < 0x80)
   \<and> languageSpecific lang (ttsBase text) = ttsBase text
   \<and> length (prepareTextForTTS text lang) \<le> 4003"
proof -
  have ascii: "\<forall>c\<in>set (ttsBase text). c < 0x80"
    using ttsBase_chars isTTSOutputChar_ascii by blast
  then have ls: "languageSpecific lang (ttsBase text) = ttsBase text"
    by (rule languageSpecific_ascii)
  have dots: "set (js ''...'') = {0x2E}" by (simp add: js_def)
  have "\<forall>c\<in>set (prepareTextForTTS text lang). isTTSOutputChar c"
  proof
    fix c assume "c \<in> set (prepareTextForTTS text lang)"
    then have "c \<in> set (ttsBase text) \<or> c = 0x2E"
      using dots by (auto simp: prepareTextForTTS_def ls substring0_def Let_def
          dest: in_set_takeD split: if_splits)
    then show "isTTSOutputChar c"
      using ttsBase_chars by (auto simp: isTTSOutputChar_def isTTSPunctuation_def)
  qed
  moreover have "length (prepareTextForTTS text lang) \<le> 4003"
    by (simp add: prepareTextForTTS_def substring0_def Let_def js_def)
  ultimately show ?thesis using ascii ls by (simp add: isTTSOutputChar_def)
qed

text \<open>A German text with a sharp s and a double space.\<close>

theorem prepareTextForTTS_output_witness:
  "prepareTextForTTS (js ''Stra'' @ [0xDF] @ js ''e  5!'') (js ''german'') = js ''Strae 5!''
   \<and> languageSpecific (js ''german'') (ttsBase (js ''Stra'' @ [0xDF] @ js ''e  5!''))
       = ttsBase (js ''Stra'' @ [0xDF] @ js ''e  5!'')
   \<and> length (prepareTextForTTS (js ''Stra'' @ [0xDF] @ js ''e  5!'') (js ''german'')) \<le> 4003"
proof -
  note inst = prepareTextForTTS_output[of "js ''Stra'' @ [0xDF] @ js ''e  5!''" "js ''german''"]
  have b: "ttsBase (js ''Stra'' @ [0xDF] @ js ''e  5!'') = js ''Strae 5!''"
    by (simp add: ttsBase_def keptForTTS_def isTTSPunctuation_def string_defs)
  from inst have ls: "languageSpecific (js ''german'') (ttsBase (js ''Stra'' @ [0xDF] @ js ''e  5!''))
       = ttsBase (js ''Stra'' @ [0xDF] @ js ''e  5!'')" by blast
  have "prepareTextForTTS (js ''Stra'' @ [0xDF] @ js ''e  5!'') (js ''german'') = js ''Strae 5!''"
    unfolding prepareTextForTTS_def Let_def b ls[unfolded b] by (simp add: js_def)
  with inst ls show ?thesis by blast
qed

section \<open>Properties of the fallback script\<close>

text \<open>
  What holds of the fallback script for every slide text: the greeting is the entry of
  the table for a language that is a key of it, and the English one for a language that
  is neither a key nor the name of an inherited member; the script is what
  \<open>generateLectureContent\<close> returns when the call of the provider fails.
\<close>

lemma greetingFor_own: "map_of languageGreetings lang = Some g \<Longrightarrow> greetingFor lang = g"
  by (simp add: greetingFor_def lookupOr_def)

lemma greetingFor_absent:
  "map_of languageGreetings lang = None \<Longrightarrow> lang \<notin> set objectPrototypeNames \<Longrightarrow>
   greetingFor lang = js ''Hello everyone,''"
  by (simp add: greetingFor_def lookupOr_def)

lemma inherited_not_own:
  assumes "lang \<in> set objectPrototypeNames"
  shows "map_of languageGreetings lang = None"
proof -
  have own: "\<forall>k\<in>fst ` set languageGreetings. hd k \<in> {0x65, 0x72, 0x73, 0x66, 0x67}"
    by (simp add: languageGreetings_def js_def)
  have "\<forall>k\<in>set objectPrototypeNames. hd k \<in> {0x63, 0x5F, 0x68, 0x69, 0x70, 0x74, 0x76}"
    by (simp add: objectPrototypeNames_def js_def)
  with assms have "hd lang \<in> {0x63, 0x5F, 0x68, 0x69, 0x70, 0x74, 0x76}" by blast
  then have "hd lang \<notin> {0x65, 0x72, 0x73, 0x66, 0x67}" by auto
  with own have "lang \<notin> fst ` set languageGreetings" by blast
  then show ?thesis by (simp only: map_of_eq_None_iff not_False_eq_True)
qed

lemma greetingFor_inherited:
  "lang \<in> set objectPrototypeNames \<Longrightarrow> greetingFor lang = memberText lang"
  by (simp add: greetingFor_def lookupOr_def inherited_not_own)

lemma generateLectureContent_failed:
  "provider (systemPrompt slideContent prompt lang) = ProviderError e
   \<or> provider (systemPrompt slideContent prompt lang) = NoContent \<Longrightarrow>
   generateLectureContent provider slideContent prompt lang
     = generateFallbackContent slideContent lang"
  by (auto simp: generateLectureContent_def)

section \<open>Properties of the number model\<close>

lemma floorlog_2_eqI: "2 ^ w \<le> n \<Longrightarrow> n < 2 ^ Suc w \<Longrightarrow> floorlog 2 n = Suc w"
  using floorlog_ge_SucI[of 2 w n] floorlog_leI[of n 2 "Suc w"] by simp

lemma nat_bounds:
  assumes "2 ^ w \<le> z" and "z < 2 ^ Suc w"
  shows "2 ^ w \<le> nat z" and "nat z < 2 ^ Suc w"
proof -
  have "(0::int) \<le> 2 ^ w" by simp
  from this assms(1) have "0 \<le> z" by (rule order_trans)
  then have z: "int (nat z) = z" by simp
  have "int (2 ^ w) \<le> int (nat z)" using assms(1) by (simp only: z) simp
  then show "2 ^ w \<le> nat z" by (simp only: of_nat_le_iff)
  have "int (nat z) < int (2 ^ Suc w)" using assms(2) by (simp only: z) simp
  then show "nat z < 2 ^ Suc w" by (simp only: of_nat_less_iff)
qed

lemma pow2_le_1: "e \<le> 0 \<Longrightarrow> pow2 e \<le> 1"
  by (auto simp: pow2_def field_simps)

lemma pow2_ge_1: "0 \<le> e \<Longrightarrow> 1 \<le> pow2 e"
  by (auto simp: pow2_def)

text \<open>\<open>ilog2\<close> finds the power of two below its argument.\<close>

lemma ilog2_I:
  assumes "pow2 e \<le> x" and "x < pow2 (e + 1)"
  shows "ilog2 x = e"
proof (cases "1 \<le> x")
  case True
  have e: "0 \<le> e"
  proof (rule ccontr)
    assume "\<not> 0 \<le> e"
    then have "pow2 (e + 1) \<le> 1" by (intro pow2_le_1) simp
    with assms(2) True show False by simp
  qed
  define w where "w = nat e"
  from e have lo: "(2::rat) ^ w \<le> x" and hi: "x < 2 ^ Suc w"
    using assms by (simp_all add: pow2_def w_def nat_add_distrib)
  have "of_int (2 ^ w) \<le> x" using lo by simp
  then have "2 ^ w \<le> \<lfloor>x\<rfloor>" by (simp only: le_floor_iff)
  moreover have "x < of_int (2 ^ Suc w)" using hi by simp
  then have "\<lfloor>x\<rfloor> < 2 ^ Suc w" by (simp only: floor_less_iff)
  ultimately have "2 ^ w \<le> nat \<lfloor>x\<rfloor>" and "nat \<lfloor>x\<rfloor> < 2 ^ Suc w"
    by (rule nat_bounds)+
  then have "floorlog 2 (nat \<lfloor>x\<rfloor>) = Suc w" by (rule floorlog_2_eqI)
  with True e show ?thesis by (simp add: ilog2_def w_def)
next
  case False
  have e: "e < 0"
  proof (rule ccontr)
    assume "\<not> e < 0"
    then have "1 \<le> pow2 e" by (intro pow2_ge_1) simp
    with assms(1) False show False by simp
  qed
  have x0: "0 < x"
    using assms(1) e by (auto simp: pow2_def intro: less_le_trans[of 0 "1 / 2 ^ nat (- e)"])
  define k where "k = nat (- e) - 1"
  have ek: "nat (- e) = Suc k" using e by (simp add: k_def)
  have p1: "pow2 e = 1 / 2 ^ Suc k" using e by (simp add: pow2_def ek)
  have p2: "pow2 (e + 1) = 1 / 2 ^ k"
  proof (cases "e = -1")
    case True then show ?thesis using ek by (simp add: pow2_def)
  next
    case False
    with e have "e + 1 < 0" by simp
    moreover have "nat (- (e + 1)) = k" using ek by simp
    ultimately show ?thesis by (simp add: pow2_def)
  qed
  have a: "1 / 2 ^ Suc k \<le> x" using assms(1) by (simp only: p1)
  have b: "x < 1 / 2 ^ k" using assms(2) by (simp only: p2)
  from a x0 have hi: "1 / x \<le> 2 ^ Suc k" by (simp add: field_simps)
  from b x0 have lo: "2 ^ k < 1 / x" by (simp add: field_simps)
  have "1 / x \<le> of_int (2 ^ Suc k)" using hi by simp
  then have c1: "\<lceil>1 / x\<rceil> \<le> 2 ^ Suc k" by (simp only: ceiling_le_iff)
  have "of_int (2 ^ k) < 1 / x" using lo by simp
  then have c2: "2 ^ k < \<lceil>1 / x\<rceil>" by (simp only: less_ceiling_iff)
  from c1 c2 have "2 ^ k \<le> \<lceil>1 / x\<rceil> - 1" and "\<lceil>1 / x\<rceil> - 1 < 2 ^ Suc k"
    by simp_all
  then have "2 ^ k \<le> nat (\<lceil>1 / x\<rceil> - 1)" and "nat (\<lceil>1 / x\<rceil> - 1) < 2 ^ Suc k"
    by (rule nat_bounds)+
  then have "floorlog 2 (nat (\<lceil>1 / x\<rceil> - 1)) = Suc k" by (rule floorlog_2_eqI)
  with False e ek show ?thesis by (simp add: ilog2_def)
qed

lemma roundHalfEven_I:
  assumes "of_int m - 1 / 2 < y" and "y < of_int m + 1 / 2"
  shows "roundHalfEven y = m"
proof (cases "of_int m \<le> y")
  case True
  with assms have "\<lfloor>y\<rfloor> = m" by (intro floor_unique) simp_all
  with assms show ?thesis by (simp add: roundHalfEven_def)
next
  case False
  with assms have "\<lfloor>y\<rfloor> = m - 1" by (intro floor_unique) simp_all
  with assms False show ?thesis by (simp add: roundHalfEven_def)
qed

text \<open>
  The double of a number between two powers of two is the multiple of the unit in the
  last place that is less than half a unit away.
\<close>

lemma toDouble_I:
  assumes "pow2 e \<le> x" and "x < pow2 (e + 1)"
    and "of_int m - 1 / 2 < x / pow2 (e - 52)" and "x / pow2 (e - 52) < of_int m + 1 / 2"
  shows "toDouble x = of_int m * pow2 (e - 52)"
  using ilog2_I[OF assms(1,2)] roundHalfEven_I[OF assms(3,4)]
  by (simp add: toDouble_def)

text \<open>
  Four words at 150 words a minute take 2 seconds. 62 words at 120 words a minute take
  32 seconds: the quotient and its product by 60 are rounded, and the product is slightly
  above 31.
\<close>

lemma ceilSeconds_4_150: "ceilSeconds 4 150 = 2"
proof -
  have q: "toDouble (4 / 150) = of_int 7686143364045647 * pow2 (- 6 - 52)"
    by (rule toDouble_I) (simp_all add: pow2_def)
  have p: "toDouble (of_int 7686143364045647 * pow2 (- 6 - 52) * 60)
             = of_int 7205759403792794 * pow2 (0 - 52)"
    by (rule toDouble_I) (simp_all add: pow2_def)
  have "\<lceil>of_int 7205759403792794 * pow2 (0 - 52)\<rceil> = 2"
    by (simp add: ceiling_eq_iff pow2_def)
  then show ?thesis
    unfolding ceilSeconds_def of_nat_numeral q p by simp
qed

lemma ceilSeconds_62_120: "ceilSeconds 62 120 = 32"
proof -
  have q: "toDouble (62 / 120) = of_int 4653719614949513 * pow2 (- 1 - 52)"
    by (rule toDouble_I) (simp_all add: pow2_def)
  have p: "toDouble (of_int 4653719614949513 * pow2 (- 1 - 52) * 60)
             = of_int 8725724278030337 * pow2 (4 - 52)"
    by (rule toDouble_I) (simp_all add: pow2_def)
  have "\<lceil>of_int 8725724278030337 * pow2 (4 - 52)\<rceil> = 32"
    by (simp add: ceiling_eq_iff pow2_def)
  then show ?thesis
    unfolding ceilSeconds_def of_nat_numeral q p by simp
qed

section \<open>Runs that differ from the specification\<close>

text \<open>
  Two facts about every run: a state the route writes has the status \<open>processing\<close>,
  \<open>ready\<close> or \<open>error\<close>, and the slides of a run that ends \<open>ready\<close> all have
  the duration 0, as has the lecture.
\<close>

lemma status_written:
  assumes "l \<in> set (tl (snd (uploadLecture sv req stored)))"
  shows "status l = Processing \<or> status l = Ready \<or> status l = Error"
proof -
  let ?h = "tl (snd (uploadLecture sv req stored))"
  from assms have m: "track l \<in> set (map track ?h)" by simp
  from uploadLecture_track[of sv req stored] obtain ps where
    "map track ?h = []
        \<or> ps \<noteq> [] \<and> map track ?h = map (Pair Processing) ps @ [(Ready, 100)]
        \<or> ps \<noteq> [] \<and> map track ?h = map (Pair Processing) ps @ [(Error, last ps)]"
    by blast
  then consider
      (none) "map track ?h = []"
    | (ready) "map track ?h = map (Pair Processing) ps @ [(Ready, 100)]"
    | (error) "map track ?h = map (Pair Processing) ps @ [(Error, last ps)]"
    by blast
  then have "fst (track l) = Processing \<or> fst (track l) = Ready \<or> fst (track l) = Error"
  proof cases
    case none with m show ?thesis by simp
  next
    case ready with m show ?thesis by (simp only:) auto
  next
    case error with m show ?thesis by (simp only:) auto
  qed
  then show ?thesis by (simp add: track_def)
qed

lemma foldl_duration_zero:
  "\<forall>s\<in>set sl. duration s = 0 \<Longrightarrow> foldl (\<lambda>sum s. sum + duration s) 0 sl = 0"
  by (induction sl rule: rev_induct) auto

lemma tryBlock_durations:
  assumes "tryBlock sv req f lec = (h, Inr sl)"
  shows "(\<forall>s\<in>set sl. duration s = 0) \<and> slides (last h) = sl \<and> totalDuration (last h) = 0"
proof (cases "s3Upload sv")
  case (Inl e)
  with assms show ?thesis by (simp add: tryBlock_def Let_def)
next
  case loc: (Inr location)
  show ?thesis
  proof (cases "extractSlides sv (fileExtension (originalname f)) (buffer f)")
    case (Inl e)
    with assms loc show ?thesis by (simp add: tryBlock_def Let_def)
  next
    case ex: (Inr xs)
    define h3 where "h3 = findByIdAndUpdate
                                 (\<lambda>l. l\<lparr>slides := skeletons 0 xs, processingProgress := 40\<rparr>)
        (findByIdAndUpdate (\<lambda>l. l\<lparr>fileUrl := location, processingProgress := 20\<rparr>)
        (findByIdAndUpdate
                 (\<lambda>l. l\<lparr>fileName := originalname f, fileType := fileExtension (originalname f), fileSize := size' f,
                        status := Processing, processingProgress := 10\<rparr>) [lec]))"
    obtain h4 r4 where loop: "processSlides sv (basePrompt sv @ [LF, LF] @ aiPrompt req) (language req)
                                (length xs) 0 xs [] h3 = (h4, r4)"
      by (cases "processSlides sv (basePrompt sv @ [LF, LF] @ aiPrompt req) (language req)
                                (length xs) 0 xs [] h3") auto
    show ?thesis
    proof (cases r4)
      case (Inl e)
      with assms loc ex loop show ?thesis by (auto simp: tryBlock_def Let_def h3_def)
    next
      case (Inr ps)
      with assms loc ex loop have sl: "sl = ps"
        and h: "h = findByIdAndUpdate
                                (\<lambda>l. l\<lparr>slides := ps,
                                       totalDuration :=
                                         foldl (\<lambda>sum s. sum + duration s) 0 ps,
                                       status := Ready,
                                       processingProgress := 100,
                                       slideCount := length ps,
                                       processingTime := Some (now sv - createdAt lec)\<rparr>) h4"
        by (auto simp: tryBlock_def Let_def h3_def)
      from processSlides_slides[OF loop[unfolded Inr]]
      have "map duration ps = replicate (length xs) 0" by simp
      then have z: "\<forall>s\<in>set ps. duration s = 0"
        by (metis in_set_replicate image_eqI list.set_map)
      with sl h show ?thesis
        by (simp add: findByIdAndUpdate_def foldl_duration_zero)
    qed
  qed
qed

text \<open>
  C1: when the speech synthesis fails for one slide, that slide keeps a null audio reference
  and an error message, the other slides are processed and the lecture becomes
  \<open>ready\<close>. The route does not do this. For the PDF of two paragraphs whose first
  synthesis fails, the exception of \<open>generateSpeech\<close> leaves the loop: the run ends
  with status \<open>error\<close> and the message "Failed to generate speech", the document keeps
  the two slide skeletons without script or audio, and the second slide is never
  processed. \<open>generateSpeechBatch\<close>, which the route does not call, records the failure
  for the first item and goes on to the second on the same provider.
\<close>

theorem speech_failure_aborts_run:
  "fst (uploadLecture speechFailingServices notesRequest (Some freshLecture))
     = UploadFailed (js ''Failed to generate speech'')
   \<and> map status (snd (uploadLecture speechFailingServices notesRequest (Some freshLecture)))
     = [Uploading, Processing, Processing, Processing, Error]
   \<and> errorMessage (last (snd (uploadLecture speechFailingServices notesRequest (Some freshLecture))))
     = js ''Failed to generate speech''
   \<and> map content (slides (last (snd (uploadLecture speechFailingServices notesRequest (Some freshLecture)))))
     = [js ''First slide text'', js ''Second slide text'']
   \<and> map aiScript (slides (last (snd (uploadLecture speechFailingServices notesRequest (Some freshLecture)))))
     = [[], []]
   \<and> map audioUrl (slides (last (snd (uploadLecture speechFailingServices notesRequest (Some freshLecture)))))
     = [[], []]
   \<and> map resultAudioUrl
         (generateSpeechBatch (synthesize speechFailingServices) 0
            [\<lparr>textSlideNumber = 1, textContent = js ''Welcome to this lecture.''\<rparr>,
             \<lparr>textSlideNumber = 2, textContent = js ''Welcome to this lecture.''\<rparr>]
            (js ''english''))
     = [None, Some (js ''s3/audio'')]
   \<and> map resultError
         (generateSpeechBatch (synthesize speechFailingServices) 0
            [\<lparr>textSlideNumber = 1, textContent = js ''Welcome to this lecture.''\<rparr>,
             \<lparr>textSlideNumber = 2, textContent = js ''Welcome to this lecture.''\<rparr>]
            (js ''english''))
     = [Some (js ''Failed to generate speech''), None]"
  by (simp add: run_defs freshLecture_def notesRequest_def speechFailingServices_def string_defs)

text \<open>
  C2: a script persisted as final passes the validation or is the fallback script. The
  route persists what \<open>generateLectureContent\<close> returns, and that function never
  calls \<open>validateGeneratedContent\<close>: when the provider answers "I cannot help with
  that.", this refusal of 24 characters is the script of the slide of a lecture that is
  \<open>ready\<close>; it does not pass the validation and it is not the fallback script.
\<close>

theorem refusal_persisted_as_script:
  "fst (uploadLecture refusingServices deckRequest (Some freshLecture))
     = Processed (slides (last (snd (uploadLecture refusingServices deckRequest (Some freshLecture)))))
   \<and> status (last (snd (uploadLecture refusingServices deckRequest (Some freshLecture)))) = Ready
   \<and> map aiScript (slides (last (snd (uploadLecture refusingServices deckRequest (Some freshLecture)))))
     = [js ''I cannot help with that.'']
   \<and> \<not> validateGeneratedContent (js ''I cannot help with that.'')
   \<and> js ''I cannot help with that.''
       \<noteq> generateFallbackContent (js ''Slide content extracted from PPTX'') (js ''english'')"
  by (simp add: run_defs freshLecture_def deckRequest_def refusingServices_def string_defs validateGeneratedContent_def
        generateFallbackContent_def greetingFor_def lookupOr_def languageGreetings_def)

text \<open>
  C8: the fallback script is the greeting of the language in the table, or the English
  greeting "Hello everyone," for any language that is not in the table, followed by the
  start of the slide text, and it replaces a generated script that is invalid or a call
  that failed. For the language \<open>constructor\<close>, which is no key of the table, the
  read of the table returns the constructor that every object literal inherits, so
  the English entry after \<open>||\<close> is not taken and the script begins with the source
  text of a native function. And for a provider that answers with a refusal the
  fallback script is not substituted at all.
\<close>

theorem inherited_member_as_greeting:
  "map_of languageGreetings (js ''constructor'') = None
   \<and> generateLectureContent (\<lambda>p. ProviderError (js ''quota'')) (js ''Cells'') (js ''Teach.'')
         (js ''constructor'')
       = js ''function Object() { [native code] } today we will be discussing the following topic: Cells. This is an important subject that we need to understand thoroughly. Let me explain the key points and provide some examples to help clarify the concepts.''
   \<and> generateFallbackContent (js ''Cells'') (js ''constructor'')
       \<noteq> js ''Hello everyone, today we will be discussing the following topic: Cells. This is an important subject that we need to understand thoroughly. Let me explain the key points and provide some examples to help clarify the concepts.''
   \<and> generateLectureContent (\<lambda>p. Content (js ''I cannot help with that.'')) (js ''Cells'')
         (js ''Teach.'') (js ''english'')
       = js ''I cannot help with that.''
   \<and> \<not> validateGeneratedContent (js ''I cannot help with that.'')"
  by (simp add: generateLectureContent_def generateFallbackContent_def greetingFor_def
        lookupOr_def languageGreetings_def objectPrototypeNames_def memberText_def
        cleanGeneratedContent_def stripQuotes_def validateGeneratedContent_def string_defs)

text \<open>
  C5: every run that reaches \<open>ready\<close> passes through \<open>processing\<close> and then
  \<open>generating\<close>. The states of the run of a presentation with one slide are
  \<open>uploading\<close>, four times \<open>processing\<close>, and \<open>ready\<close>: the route never writes
  the status \<open>generating\<close>.
\<close>

theorem generating_never_set:
  "map status (snd (uploadLecture plainServices deckRequest (Some freshLecture)))
     = [Uploading, Processing, Processing, Processing, Processing, Ready]"
  by (simp add: run_defs freshLecture_def deckRequest_def plainServices_def string_defs)

text \<open>
  C7: a slide whose audio synthesis succeeds carries a measured or estimated duration, and
  the total duration of the lecture is the sum of the durations of its slides. The route
  writes the constant 0 as the duration of every slide and never calls
  \<open>estimateAudioDuration\<close>: the slide of this run has its audio, a duration of 0 and
  a total of 0, while the estimate for its script of four words is 2 seconds.
\<close>

lemma splitWhiteSpace_welcome:
  "splitWhiteSpace (js ''Welcome to this lecture.'') = [js ''Welcome'', js ''to'', js ''this'', js ''lecture.'']"
  by (simp add: string_defs)

theorem duration_left_zero:
  "map audioUrl (slides (last (snd (uploadLecture plainServices deckRequest (Some freshLecture)))))
     = [js ''s3/audio'']
   \<and> map aiScript (slides (last (snd (uploadLecture plainServices deckRequest (Some freshLecture)))))
     = [js ''Welcome to this lecture.'']
   \<and> map duration (slides (last (snd (uploadLecture plainServices deckRequest (Some freshLecture)))))
     = [0]
   \<and> totalDuration (last (snd (uploadLecture plainServices deckRequest (Some freshLecture)))) = 0
   \<and> estimateAudioDuration (js ''Welcome to this lecture.'') (js ''english'') = Some 2"
proof -
  have r: "lookupOr speakingRates (js ''english'') 150 = Own 150"
    by (simp add: lookupOr_def speakingRates_def js_def)
  have w: "length (splitWhiteSpace (js ''Welcome to this lecture.'')) = 4"
    unfolding splitWhiteSpace_welcome by simp
  have e: "estimateAudioDuration (js ''Welcome to this lecture.'') (js ''english'') = Some 2"
    unfolding estimateAudioDuration_def Let_def w r
    by (simp add: ceilSeconds_4_150)
  show ?thesis
    unfolding e by (simp add: run_defs freshLecture_def deckRequest_def plainServices_def string_defs)
qed

end
